theory Spec2Isabelle
  imports Main
begin

section \<open>The game screen\<close>

text \<open>
  The game screen keeps its state in React hooks: the grid, the index of the current
  player, the picks left, the slapped player, the game-over flag, the mine count, and
  two refs (the live pick counter and the turn lock). The roster is parsed once from the
  route parameter. A handler is modelled as a function from the state it was rendered
  with to the state after its updates; the effects that run after a render are
  functions of the state before and after.
\<close>

definition GRID_SIZE :: nat where
  "GRID_SIZE = 5"

definition TOTAL_TILES :: nat where
  "TOTAL_TILES = GRID_SIZE * GRID_SIZE"

text \<open>The field \<open>id\<close> of a tile is called \<open>tid\<close> here.\<close>

record tile =
  tid :: nat
  isMine :: bool
  isRevealed :: bool

datatype error = TypeError | SyntaxError

text \<open>
  \<open>slappedPlayer\<close> is a string, \<open>null\<close> or (read out of range) \<open>undefined\<close>; the
  last two are \<open>None\<close>. \<open>timers\<close> counts the callbacks scheduled by \<open>setTimeout\<close> that
  have not run yet.
\<close>

record game =
  players :: "string list"
  grid :: "tile list"
  currentPlayerIndex :: nat
  picksLeft :: int
  slappedPlayer :: "string option"
  isGameOver :: bool
  mineCount :: int
  picksLeftRef :: int
  turnLockedRef :: bool
  timers :: nat

text \<open>JavaScript truthiness of a string, \<open>null\<close> or \<open>undefined\<close>.\<close>

definition truthy :: "string option \<Rightarrow> bool" where
  "truthy v = (case v of None \<Rightarrow> False | Some str \<Rightarrow> str \<noteq> [])"

text \<open>The state of the hooks at the first render, for a parsed roster.\<close>

definition initialGame :: "string list \<Rightarrow> game" where
  "initialGame ps =
     \<lparr>players = ps, grid = [], currentPlayerIndex = 0, picksLeft = 3,
      slappedPlayer = None, isGameOver = False, mineCount = 1,
      picksLeftRef = 3, turnLockedRef = False, timers = 0\<rparr>"

definition blankGrid :: "tile list" where
  "blankGrid = map (\<lambda>i. \<lparr>tid = i, isMine = False, isRevealed = False\<rparr>) [0..<TOTAL_TILES]"

text \<open>
  The loop of \<open>initializeGame\<close>. Each pass draws
  \<open>Math.floor(Math.random() * TOTAL_TILES)\<close>; the draws are the last argument, in the
  order the loop takes them. The loop returns \<open>None\<close> when the draws run out before
  \<open>minesPlaced\<close> has reached \<open>mineCount\<close>: it is still running. A draw outside the grid
  reads \<open>undefined\<close>, whose field access throws.
\<close>

fun placeMines :: "int \<Rightarrow> int \<Rightarrow> tile list \<Rightarrow> nat list \<Rightarrow> (error + tile list) option" where
  "placeMines mc minesPlaced newGrid [] =
     (if minesPlaced < mc then None else Some (Inr newGrid))"
| "placeMines mc minesPlaced newGrid (randomIndex # draws) =
     (if minesPlaced < mc then
        (if randomIndex < length newGrid then
           (if \<not> isMine (newGrid ! randomIndex)
            then placeMines mc (minesPlaced + 1)
                   (newGrid[randomIndex := (newGrid ! randomIndex)\<lparr>isMine := True\<rparr>]) draws
            else placeMines mc minesPlaced newGrid draws)
         else Some (Inl TypeError))
      else Some (Inr newGrid))"

definition initializeGame :: "nat list \<Rightarrow> game \<Rightarrow> (error + game) option" where
  "initializeGame draws s =
     (case placeMines (mineCount s) 0 blankGrid draws of
        None \<Rightarrow> None
      | Some (Inl e) \<Rightarrow> Some (Inl e)
      | Some (Inr newGrid) \<Rightarrow>
          Some (Inr (s\<lparr>grid := newGrid, picksLeft := 3, isGameOver := False,
                       slappedPlayer := None, turnLockedRef := False\<rparr>)))"

text \<open>
  The effect on \<open>picksLeft\<close>: after a render in which \<open>picksLeft\<close> has changed, the ref
  takes its value.
\<close>

definition syncPicksLeftRef :: "game \<Rightarrow> game \<Rightarrow> game" where
  "syncPicksLeftRef old s =
     (if picksLeft s \<noteq> picksLeft old then s\<lparr>picksLeftRef := picksLeft s\<rparr> else s)"

definition nextTurn :: "game \<Rightarrow> game" where
  "nextTurn s =
     s\<lparr>picksLeft := 3, turnLockedRef := False,
       currentPlayerIndex :=
         (if length (players s) \<noteq> 0
          then (currentPlayerIndex s + 1) mod length (players s) else 0)\<rparr>"

definition handleTilePress :: "nat \<Rightarrow> game \<Rightarrow> game" where
  "handleTilePress index s =
     (if isGameOver s \<or> (index < length (grid s) \<and> isRevealed (grid s ! index)) \<or>
         truthy (slappedPlayer s) \<or> picksLeftRef s \<le> 0 \<or> turnLockedRef s
      then s
      else if \<not> index < length (grid s) then s
      else
        let pressed = grid s ! index;
            s1 = s\<lparr>grid := (grid s)[index := pressed\<lparr>isRevealed := True\<rparr>]\<rparr>
        in if isMine pressed then
             s1\<lparr>turnLockedRef := True,
                slappedPlayer :=
                  (if currentPlayerIndex s < length (players s)
                   then Some (players s ! currentPlayerIndex s) else None),
                isGameOver := True\<rparr>
           else
             let newPicksLeft = picksLeftRef s - 1;
                 s2 = s1\<lparr>picksLeftRef := newPicksLeft\<rparr>
             in if newPicksLeft = 0
                then s2\<lparr>picksLeft := 0, turnLockedRef := True, timers := timers s + 1\<rparr>
                else s2\<lparr>picksLeft := newPicksLeft\<rparr>)"

definition handleEndTurn :: "game \<Rightarrow> game" where
  "handleEndTurn s = (if picksLeft s = 3 then s else nextTurn (s\<lparr>turnLockedRef := True\<rparr>))"

definition handleSlapDismiss :: "nat list \<Rightarrow> game \<Rightarrow> (error + game) option" where
  "handleSlapDismiss draws s =
     (case initializeGame draws (s\<lparr>slappedPlayer := None\<rparr>) of
        None \<Rightarrow> None
      | Some (Inl e) \<Rightarrow> Some (Inl e)
      | Some (Inr s') \<Rightarrow>
          Some (Inr (s'\<lparr>currentPlayerIndex :=
                          (if length (players s) \<noteq> 0
                           then (currentPlayerIndex s + 1) mod length (players s) else 0)\<rparr>)))"

subsection \<open>What the rendered controls allow\<close>

text \<open>
  A tile is rendered with \<open>disabled\<close> set when the game is over, the tile is revealed or
  no pick is left; a disabled control does not call its handler. Only the tiles of the
  grid are rendered, so a press carries an index inside it.
\<close>

definition tileDisabled :: "game \<Rightarrow> nat \<Rightarrow> bool" where
  "tileDisabled s index = (isGameOver s \<or> isRevealed (grid s ! index) \<or> picksLeft s = 0)"

definition pressTile :: "nat \<Rightarrow> game \<Rightarrow> game" where
  "pressTile index s =
     (if index < length (grid s) \<and> \<not> tileDisabled s index
      then syncPicksLeftRef s (handleTilePress index s) else s)"

definition endTurnDisabled :: "game \<Rightarrow> bool" where
  "endTurnDisabled s = (picksLeft s = 3 \<or> isGameOver s)"

definition pressEndTurn :: "game \<Rightarrow> game" where
  "pressEndTurn s = (if endTurnDisabled s then s else syncPicksLeftRef s (handleEndTurn s))"

text \<open>The callback of \<open>setTimeout\<close> runs \<open>nextTurn\<close>.\<close>

definition timerFires :: "game \<Rightarrow> game" where
  "timerFires s =
     (if timers s = 0 then s else syncPicksLeftRef s ((nextTurn s)\<lparr>timers := timers s - 1\<rparr>))"

definition rendered :: "game \<Rightarrow> (error + game) option \<Rightarrow> (error + game) option" where
  "rendered old r =
     (case r of
        None \<Rightarrow> None
      | Some (Inl e) \<Rightarrow> Some (Inl e)
      | Some (Inr s) \<Rightarrow> Some (Inr (syncPicksLeftRef old s)))"

text \<open>The modal with the button that calls \<open>handleSlapDismiss\<close> is visible when
  \<open>slappedPlayer\<close> is truthy.\<close>

definition pressNextRound :: "nat list \<Rightarrow> game \<Rightarrow> (error + game) option" where
  "pressNextRound draws s =
     (if truthy (slappedPlayer s) then rendered s (handleSlapDismiss draws s) else Some (Inr s))"

definition pressReset :: "nat list \<Rightarrow> game \<Rightarrow> (error + game) option" where
  "pressReset draws s = rendered s (initializeGame draws s)"

text \<open>
  \<open>initializeGame\<close> is a callback that depends on \<open>mineCount\<close>, and an effect that depends
  on the callback calls it: after a render in which \<open>mineCount\<close> has changed, the game is
  initialized again, with the new \<open>mineCount\<close>.
\<close>

definition mineCountEffect :: "nat list \<Rightarrow> game \<Rightarrow> game \<Rightarrow> (error + game) option" where
  "mineCountEffect draws old s =
     (if mineCount s \<noteq> mineCount old then rendered s (initializeGame draws s)
      else Some (Inr s))"

definition pressMinus :: "nat list \<Rightarrow> game \<Rightarrow> (error + game) option" where
  "pressMinus draws s = mineCountEffect draws s (s\<lparr>mineCount := max 1 (mineCount s - 1)\<rparr>)"

definition pressPlus :: "nat list \<Rightarrow> game \<Rightarrow> (error + game) option" where
  "pressPlus draws s = mineCountEffect draws s (s\<lparr>mineCount := min 24 (mineCount s + 1)\<rparr>)"

subsection \<open>The events of the game screen and the states they reach\<close>

datatype event =
  TilePress nat
| EndTurnPress
| NextRoundPress "nat list"
| ResetPress "nat list"
| MinusPress "nat list"
| PlusPress "nat list"
| TimerFires

fun step :: "event \<Rightarrow> game \<Rightarrow> (error + game) option" where
  "step (TilePress index) s = Some (Inr (pressTile index s))"
| "step EndTurnPress s = Some (Inr (pressEndTurn s))"
| "step (NextRoundPress draws) s = pressNextRound draws s"
| "step (ResetPress draws) s = pressReset draws s"
| "step (MinusPress draws) s = pressMinus draws s"
| "step (PlusPress draws) s = pressPlus draws s"
| "step TimerFires s = Some (Inr (timerFires s))"

text \<open>
  The states of the screen: the first render, then any events. The effect that
  initializes the game at the mount does what \<open>ResetPress\<close> does.
\<close>

inductive reachable :: "string list \<Rightarrow> game \<Rightarrow> bool" for ps :: "string list" where
  reachable_init: "reachable ps (initialGame ps)"
| reachable_step: "reachable ps s \<Longrightarrow> step e s = Some (Inr s') \<Longrightarrow> reachable ps s'"

text \<open>The positions of the mines of a grid.\<close>

definition minePositions :: "tile list \<Rightarrow> nat list" where
  "minePositions g = filter (\<lambda>i. isMine (g ! i)) [0..<length g]"

subsection \<open>The roster handed to the game screen\<close>

text \<open>
  The route parameter \<open>players\<close> is a string or missing. \<open>JSON.parse\<close> is the builtin of
  the language, taken here as a parameter: it returns the parsed value, or throws a
  \<open>SyntaxError\<close> on a text that is not JSON. The parsed value is cast to \<open>string[]\<close>
  without a check, so the result is a JSON value.
\<close>

datatype json =
  JNull
| JBool bool
| JNumber int
| JString string
| JArray "json list"
| JObject "(string \<times> json) list"

text \<open>The body of the \<open>try\<close>: the empty string is falsy, as a missing parameter is.\<close>

definition parsePlayersTry :: "(string \<Rightarrow> error + json) \<Rightarrow> string option \<Rightarrow> error + json" where
  "parsePlayersTry JSON_parse param =
     (case param of
        None \<Rightarrow> Inr (JArray [])
      | Some text \<Rightarrow> if text \<noteq> [] then JSON_parse text else Inr (JArray []))"

text \<open>The whole expression: \<open>catch\<close> returns the empty array for anything thrown.\<close>

definition parsePlayers :: "(string \<Rightarrow> error + json) \<Rightarrow> string option \<Rightarrow> json" where
  "parsePlayers JSON_parse param =
     (case parsePlayersTry JSON_parse param of Inl e \<Rightarrow> JArray [] | Inr v \<Rightarrow> v)"

section \<open>The setup screen\<close>

text \<open>
  \<open>String.prototype.trim\<close> removes white space and line terminators at both ends. A
  \<open>char\<close> is a byte; the white space of the language below 256 is the tab, the line
  feed, the vertical tab, the form feed, the carriage return, the space and the
  no-break space.
\<close>

definition isWhiteSpace :: "char \<Rightarrow> bool" where
  "isWhiteSpace c = (of_char c \<in> {9, 10, 11, 12, 13, 32, 160 :: nat})"

definition trim :: "string \<Rightarrow> string" where
  "trim str = rev (dropWhile isWhiteSpace (rev (dropWhile isWhiteSpace str)))"

record setupScreen =
  su_playerName :: string
  su_players :: "string list"

definition initialSetup :: setupScreen where
  "initialSetup = \<lparr>su_playerName = [], su_players = []\<rparr>"

text \<open>An alert is its title and its message. A handler returns the alert it shows, if
  any, and the state after it.\<close>

type_synonym alert = "string \<times> string"

definition addPlayer :: "setupScreen \<Rightarrow> alert option \<times> setupScreen" where
  "addPlayer s =
     (if trim (su_playerName s) = [] then (None, s)
      else if trim (su_playerName s) \<in> set (su_players s)
      then (Some (''Duplicate Name'', ''Player already exists!''), s)
      else (None, s\<lparr>su_players := su_players s @ [trim (su_playerName s)],
                     su_playerName := []\<rparr>))"

text \<open>\<open>splice(index, 1)\<close> on a copy: an index past the end removes nothing.\<close>

definition removePlayer :: "nat \<Rightarrow> setupScreen \<Rightarrow> setupScreen" where
  "removePlayer index s =
     s\<lparr>su_players := take index (su_players s) @ drop (index + 1) (su_players s)\<rparr>"

text \<open>\<open>startGame\<close> shows an alert, or pushes the game route with the roster as its
  parameter (\<open>Inr\<close>).\<close>

definition startGame :: "setupScreen \<Rightarrow> alert + string list" where
  "startGame s =
     (if length (su_players s) < 2
      then Inl (''Not enough players'', ''Please add at least 2 players!'')
      else Inr (su_players s))"

datatype su_event = ChangeText string | AddPlayer | RemovePlayer nat

fun su_step :: "su_event \<Rightarrow> setupScreen \<Rightarrow> setupScreen" where
  "su_step (ChangeText text) s = s\<lparr>su_playerName := text\<rparr>"
| "su_step AddPlayer s = snd (addPlayer s)"
| "su_step (RemovePlayer index) s = removePlayer index s"

text \<open>The state of the setup screen after a sequence of events, from the first render.\<close>

definition su_run :: "su_event list \<Rightarrow> setupScreen" where
  "su_run es = foldl (\<lambda>s e. su_step e s) initialSetup es"

section \<open>The single-screen application\<close>

text \<open>
  \<open>App.tsx\<close> is a screen of its own, with its own tiles, players with slap counts, and
  one mine. Its names carry the prefix \<open>app_\<close> where they would clash with those of the
  other screens.
\<close>

definition MAX_PICKS :: int where
  "MAX_PICKS = 3"

record app_tile =
  tile_id :: nat
  revealed :: bool
  tile_isMine :: bool

record player =
  player_id :: nat
  name :: string
  slaps :: int

record app =
  app_players :: "player list"
  app_playerName :: string
  app_currentPlayerIndex :: nat
  mineIndex :: nat
  app_grid :: "app_tile list"
  app_picksLeft :: int
  roundMessage :: string

definition createGrid :: "nat \<Rightarrow> app_tile list" where
  "createGrid mine =
     map (\<lambda>i. \<lparr>tile_id = i, revealed = False, tile_isMine = (i = mine)\<rparr>)
       [0..<GRID_SIZE * GRID_SIZE]"

text \<open>The first render, for the first draw of the mine.\<close>

definition initialApp :: "nat \<Rightarrow> app" where
  "initialApp mine =
     \<lparr>app_players = [], app_playerName = [], app_currentPlayerIndex = 0,
      mineIndex = mine, app_grid = createGrid mine, app_picksLeft = MAX_PICKS,
      roundMessage = ''Pick up to 3 tiles.''\<rparr>"

text \<open>\<open>currentPlayer\<close> is \<open>undefined\<close> for an empty roster and for an index outside it.\<close>

definition currentPlayer :: "app \<Rightarrow> player option" where
  "currentPlayer s =
     (if length (app_players s) \<noteq> 0 \<and> app_currentPlayerIndex s < length (app_players s)
      then Some (app_players s ! app_currentPlayerIndex s) else None)"

text \<open>\<open>nextMine\<close> is the draw \<open>Math.floor(Math.random() * GRID_SIZE * GRID_SIZE)\<close>.\<close>

definition resetRound :: "nat \<Rightarrow> string option \<Rightarrow> nat \<Rightarrow> app \<Rightarrow> app" where
  "resetRound nextPlayerIndex message nextMine s =
     s\<lparr>mineIndex := nextMine, app_grid := createGrid nextMine, app_picksLeft := MAX_PICKS,
       roundMessage := (case message of None \<Rightarrow> ''Pick up to 3 tiles.'' | Some m \<Rightarrow> m),
       app_currentPlayerIndex := nextPlayerIndex\<rparr>"

definition advanceTurn :: "string option \<Rightarrow> nat \<Rightarrow> app \<Rightarrow> app" where
  "advanceTurn message nextMine s =
     (if length (app_players s) = 0 then s
      else resetRound ((app_currentPlayerIndex s + 1) mod length (app_players s))
             message nextMine s)"

text \<open>\<open>now\<close> is \<open>Date.now()\<close>.\<close>

definition app_addPlayer :: "nat \<Rightarrow> app \<Rightarrow> app" where
  "app_addPlayer now s =
     (let trimmed = trim (app_playerName s) in
      if trimmed = [] then s
      else s\<lparr>app_players := app_players s @ [\<lparr>player_id = now, name = trimmed, slaps = 0\<rparr>],
             app_playerName := [],
             app_currentPlayerIndex :=
               (if length (app_players s) = 0 then 0 else app_currentPlayerIndex s)\<rparr>)"

text \<open>
  The updates of \<open>handlePick\<close> are applied in the order the handler queues them, so the
  grid and the picks that \<open>advanceTurn\<close> sets replace the ones set before it.
\<close>

definition handlePick :: "nat \<Rightarrow> nat \<Rightarrow> app \<Rightarrow> app" where
  "handlePick nextMine tileId s =
     (case currentPlayer s of
        None \<Rightarrow> s
      | Some cp \<Rightarrow>
          if app_picksLeft s = 0 then s
          else (case find (\<lambda>t. tile_id t = tileId) (app_grid s) of
                  None \<Rightarrow> s
                | Some pickedTile \<Rightarrow>
                    if revealed pickedTile then s
                    else
                      let s1 = s\<lparr>app_grid :=
                                  map (\<lambda>t. if tile_id t = tileId then t\<lparr>revealed := True\<rparr> else t)
                                    (app_grid s)\<rparr>
                      in if tile_isMine pickedTile then
                           advanceTurn (Some (name cp @ '' hit the mine! Slap!'')) nextMine
                             (s1\<lparr>app_players :=
                                   map (\<lambda>(idx, p). if idx = app_currentPlayerIndex s
                                                    then p\<lparr>slaps := slaps p + 1\<rparr> else p)
                                     (enumerate 0 (app_players s))\<rparr>)
                         else
                           let nextPicksLeft = app_picksLeft s - 1;
                               s2 = s1\<lparr>app_picksLeft := nextPicksLeft\<rparr>
                           in if nextPicksLeft = 0
                              then advanceTurn (Some (name cp @ '' is safe. Next player.''))
                                     nextMine s2
                              else s2))"

datatype app_event = AppChangeText string | AppAddPlayer nat | AppPick nat nat

fun app_step :: "app_event \<Rightarrow> app \<Rightarrow> app" where
  "app_step (AppChangeText text) s = s\<lparr>app_playerName := text\<rparr>"
| "app_step (AppAddPlayer now) s = app_addPlayer now s"
| "app_step (AppPick nextMine tileId) s = handlePick nextMine tileId s"

inductive app_reachable :: "app \<Rightarrow> bool" where
  app_reachable_init: "app_reachable (initialApp mine)"
| app_reachable_step: "app_reachable s \<Longrightarrow> app_reachable (app_step e s)"

section \<open>Observations used by the properties\<close>

definition mineSet :: "tile list \<Rightarrow> nat set" where
  "mineSet g = {i. i < length g \<and> isMine (g ! i)}"

text \<open>
  The states of the turn machine, read on the state of the game screen. A pick is
  awaited when the round is not over, nobody is slapped, picks are left and the turn is
  not locked; the ref holds the value of \<open>picksLeft\<close>, as it does after every render. The
  round is won when the last pick was safe and the timer for the next turn is running.
  A player is slapped when the game is over and the modal shows the current player as
  the slapped one.
\<close>

definition awaitingPick :: "game \<Rightarrow> bool" where
  "awaitingPick s =
     (\<not> isGameOver s \<and> \<not> truthy (slappedPlayer s) \<and> 0 < picksLeft s \<and>
      picksLeftRef s = picksLeft s \<and> \<not> turnLockedRef s)"

definition roundWon :: "game \<Rightarrow> bool" where
  "roundWon s =
     (\<not> isGameOver s \<and> \<not> truthy (slappedPlayer s) \<and> picksLeft s = 0 \<and>
      picksLeftRef s = 0 \<and> turnLockedRef s \<and> 0 < timers s)"

definition slapped :: "game \<Rightarrow> bool" where
  "slapped s =
     (isGameOver s \<and> turnLockedRef s \<and> truthy (slappedPlayer s) \<and>
      currentPlayerIndex s < length (players s) \<and>
      slappedPlayer s = Some (players s ! currentPlayerIndex s))"

text \<open>
  A round initialized again in place, with \<open>k\<close> mines: a fresh grid, three picks, the
  flags cleared, the current player and the roster as they were.
\<close>

definition reinitializedWith :: "int \<Rightarrow> game \<Rightarrow> game \<Rightarrow> bool" where
  "reinitializedWith k s s' =
     (mineCount s' = k \<and> currentPlayerIndex s' = currentPlayerIndex s \<and>
      players s' = players s \<and> length (grid s') = 25 \<and>
      map isRevealed (grid s') = replicate 25 False \<and>
      int (length (minePositions (grid s'))) = k \<and> picksLeft s' = 3 \<and>
      \<not> isGameOver s' \<and> slappedPlayer s' = None \<and> \<not> turnLockedRef s')"

text \<open>
  What holds of the game screen after every render: the ref holds the picks left, the
  picks left are between 0 and 3, and the mine count is between 1 and 24.
\<close>

definition gameInv :: "game \<Rightarrow> bool" where
  "gameInv s =
     (picksLeftRef s = picksLeft s \<and> 0 \<le> picksLeft s \<and> picksLeft s \<le> 3 \<and>
      1 \<le> mineCount s \<and> mineCount s \<le> 24)"

text \<open>In \<open>App.tsx\<close> a tile takes a pick when there is a current player and a pick is left.\<close>

definition app_awaitingPick :: "app \<Rightarrow> bool" where
  "app_awaitingPick s = (currentPlayer s \<noteq> None \<and> app_picksLeft s \<noteq> 0)"

definition appInv :: "app \<Rightarrow> bool" where
  "appInv s =
     (1 \<le> app_picksLeft s \<and> app_picksLeft s \<le> 3 \<and>
      (app_players s \<noteq> [] \<longrightarrow> app_currentPlayerIndex s < length (app_players s)))"

text \<open>What holds of the roster of the setup screen: its names are distinct and none is
  empty.\<close>

definition rosterInv :: "setupScreen \<Rightarrow> bool" where
  "rosterInv s = (distinct (su_players s) \<and> [] \<notin> set (su_players s))"

section \<open>Example states\<close>

text \<open>The game of A and B after the mount, when the first draw was 7.\<close>

definition exampleGrid :: "tile list" where
  "exampleGrid = blankGrid[7 := \<lparr>tid = 7, isMine = True, isRevealed = False\<rparr>]"

definition exampleGame :: game where
  "exampleGame = (initialGame [''A'', ''B''])\<lparr>grid := exampleGrid\<rparr>"

text \<open>The game of the example after three safe picks, the timer still running.\<close>

definition wonGame :: game where
  "wonGame = pressTile 2 (pressTile 1 (pressTile 0 exampleGame))"

text \<open>The game of the example after A has pressed the mine.\<close>

definition slappedGame :: game where
  "slappedGame = pressTile 7 exampleGame"

text \<open>The game screen opened without a roster, after the mount.\<close>

definition emptyRosterGame :: game where
  "emptyRosterGame = (initialGame [])\<lparr>grid := exampleGrid\<rparr>"

text \<open>The application after A and B were added, with the mine drawn at 7.\<close>

definition exampleApp :: app where
  "exampleApp =
     \<lparr>app_players = [\<lparr>player_id = 1, name = ''A'', slaps = 0\<rparr>,
                     \<lparr>player_id = 2, name = ''B'', slaps = 0\<rparr>],
      app_playerName = [], app_currentPlayerIndex = 0, mineIndex = 7,
      app_grid = createGrid 7, app_picksLeft = 3,
      roundMessage = ''Pick up to 3 tiles.''\<rparr>"

text \<open>The setup screen after A and B were added and the name of A was typed again,
  with spaces around it.\<close>

definition exampleSetup :: setupScreen where
  "exampleSetup =
     su_run [ChangeText ''A'', AddPlayer, ChangeText ''B'', AddPlayer, ChangeText '' A '']"

text \<open>A stand-in for \<open>JSON.parse\<close> that knows one text, the empty array.\<close>

definition exampleParse :: "string \<Rightarrow> error + json" where
  "exampleParse text = (if text = ''[]'' then Inr (JArray []) else Inl SyntaxError)"

section \<open>Properties\<close>

subsection \<open>The placement of the mines\<close>

lemma TOTAL_TILES_25: "TOTAL_TILES = 25"
  by (simp add: TOTAL_TILES_def GRID_SIZE_def)

lemma filter_update_count:
  "r < length g \<Longrightarrow> \<not> P (g ! r) \<Longrightarrow> P x \<Longrightarrow>
   length (filter P (g[r := x])) = Suc (length (filter P g))"
  by (induction g arbitrary: r) (auto split: nat.splits)

lemma minePositions_count: "length (minePositions g) = length (filter isMine g)"
proof -
  have "length (minePositions g) = card {i. i < length g \<and> isMine (g ! i)}"
    unfolding minePositions_def by (simp add: length_filter_conv_card cong: conj_cong)
  then show ?thesis by (simp add: length_filter_conv_card)
qed

lemma minePositions_distinct: "distinct (minePositions g)"
  by (simp add: minePositions_def)

lemma set_minePositions: "set (minePositions g) = mineSet g"
  by (auto simp: minePositions_def mineSet_def)

lemma blankGrid_length: "length blankGrid = 25"
  by (simp add: blankGrid_def TOTAL_TILES_25)

lemma blankGrid_no_mines: "filter isMine blankGrid = []"
  by (simp add: blankGrid_def filter_empty_conv)

lemma blankGrid_mineSet: "mineSet blankGrid = {}"
  by (simp add: blankGrid_def mineSet_def)

lemma blankGrid_hidden: "map isRevealed blankGrid = replicate 25 False"
  by (simp add: blankGrid_def TOTAL_TILES_25 list_eq_iff_nth_eq)

lemma placeMines_result:
  "placeMines mc mp g draws = Some (Inr g') \<Longrightarrow> mp \<le> mc \<Longrightarrow>
   length g' = length g \<and>
   int (length (filter isMine g')) = int (length (filter isMine g)) + (mc - mp) \<and>
   map tid g' = map tid g \<and> map isRevealed g' = map isRevealed g"
proof (induction draws arbitrary: mp g)
  case Nil
  then show ?case by (simp split: if_splits)
next
  case (Cons r draws)
  show ?case
  proof (cases "mp < mc")
    case False
    with Cons.prems show ?thesis by simp
  next
    case True
    note lt = this
    show ?thesis
    proof (cases "r < length g")
      case False
      with lt Cons.prems show ?thesis by simp
    next
      case True
      note inr = this
      show ?thesis
      proof (cases "isMine (g ! r)")
        case True
        with lt inr Cons.prems have "placeMines mc mp g draws = Some (Inr g')" by simp
        from Cons.IH[OF this] Cons.prems(2) show ?thesis by simp
      next
        case False
        let ?g = "g[r := (g ! r)\<lparr>isMine := True\<rparr>]"
        from False lt inr Cons.prems
        have run: "placeMines mc (mp + 1) ?g draws = Some (Inr g')" by simp
        from lt have "mp + 1 \<le> mc" by simp
        from Cons.IH[OF run this]
        have a: "length g' = length ?g"
          and b: "int (length (filter isMine g')) = int (length (filter isMine ?g)) + (mc - (mp + 1))"
          and c: "map tid g' = map tid ?g" and d: "map isRevealed g' = map isRevealed ?g"
          by simp_all
        have e: "length (filter isMine ?g) = Suc (length (filter isMine g))"
          using inr False by (simp add: filter_update_count)
        have f: "map tid ?g = map tid g" "map isRevealed ?g = map isRevealed g"
          using inr by (simp_all add: list_eq_iff_nth_eq nth_list_update)
        from a b c d e f show ?thesis by simp
      qed
    qed
  qed
qed

lemma placeMines_returns:
  "\<forall>r\<in>set draws. r < length g \<Longrightarrow> mc - mp \<le> int (card (set draws - mineSet g)) \<Longrightarrow>
   \<exists>g'. placeMines mc mp g draws = Some (Inr g')"
proof (induction draws arbitrary: mp g)
  case Nil
  then show ?case by simp
next
  case (Cons r draws)
  show ?case
  proof (cases "mp < mc")
    case False
    then show ?thesis by simp
  next
    case True
    note lt = this
    from Cons.prems(1) have inr: "r < length g" and rest: "\<forall>r\<in>set draws. r < length g" by simp_all
    show ?thesis
    proof (cases "isMine (g ! r)")
      case True
      then have "r \<in> mineSet g" using inr by (simp add: mineSet_def)
      then have "set (r # draws) - mineSet g = set draws - mineSet g" by auto
      with Cons.prems(2) have "mc - mp \<le> int (card (set draws - mineSet g))" by simp
      from Cons.IH[OF rest this] True lt inr show ?thesis by simp
    next
      case False
      let ?g = "g[r := (g ! r)\<lparr>isMine := True\<rparr>]"
      have ms: "mineSet ?g = insert r (mineSet g)"
        using inr by (auto simp: mineSet_def nth_list_update)
      have "set (r # draws) - mineSet g \<subseteq> insert r (set draws - mineSet ?g)"
        using ms by auto
      then have "card (set (r # draws) - mineSet g) \<le> card (insert r (set draws - mineSet ?g))"
        by (intro card_mono) auto
      also have "\<dots> \<le> Suc (card (set draws - mineSet ?g))"
        by (simp add: card_insert_le_m1 card_insert_if)
      finally have "mc - (mp + 1) \<le> int (card (set draws - mineSet ?g))"
        using Cons.prems(2) by simp
      moreover have "\<forall>r\<in>set draws. r < length ?g" using rest by simp
      ultimately obtain g' where "placeMines mc (mp + 1) ?g draws = Some (Inr g')"
        using Cons.IH by blast
      with False lt inr show ?thesis by simp
    qed
  qed
qed

lemma map_field_update_same:
  "i < length g \<Longrightarrow> f x = f (g ! i) \<Longrightarrow> map f (g[i := x]) = map f g"
  by (simp add: list_eq_iff_nth_eq nth_list_update)

lemma handleTilePress_mines:
  "map isMine (grid (handleTilePress index s)) = map isMine (grid s) \<and>
   mineCount (handleTilePress index s) = mineCount s"
  by (simp add: handleTilePress_def Let_def map_field_update_same)

lemma syncPicksLeftRef_frame:
  "grid (syncPicksLeftRef b s) = grid s" "mineCount (syncPicksLeftRef b s) = mineCount s"
  "picksLeft (syncPicksLeftRef b s) = picksLeft s"
  "currentPlayerIndex (syncPicksLeftRef b s) = currentPlayerIndex s"
  "isGameOver (syncPicksLeftRef b s) = isGameOver s"
  "slappedPlayer (syncPicksLeftRef b s) = slappedPlayer s"
  "turnLockedRef (syncPicksLeftRef b s) = turnLockedRef s"
  "players (syncPicksLeftRef b s) = players s"
  "timers (syncPicksLeftRef b s) = timers s"
  by (simp_all add: syncPicksLeftRef_def)

lemma pressTile_mines:
  "map isMine (grid (pressTile index s)) = map isMine (grid s) \<and>
   mineCount (pressTile index s) = mineCount s"
  by (simp add: pressTile_def syncPicksLeftRef_frame handleTilePress_mines)

lemma pressEndTurn_mines:
  "grid (pressEndTurn s) = grid s \<and> mineCount (pressEndTurn s) = mineCount s"
  by (simp add: pressEndTurn_def handleEndTurn_def nextTurn_def syncPicksLeftRef_frame)

lemma timerFires_mines:
  "grid (timerFires s) = grid s \<and> mineCount (timerFires s) = mineCount s"
  by (simp add: timerFires_def nextTurn_def syncPicksLeftRef_frame)

lemma initializeGame_result:
  assumes run: "initializeGame draws s = Some (Inr s')" and nonneg: "0 \<le> mineCount s"
  shows "length (grid s') = 25 \<and> distinct (minePositions (grid s')) \<and>
         int (length (minePositions (grid s'))) = mineCount s \<and>
         map isRevealed (grid s') = replicate 25 False \<and>
         map tid (grid s') = [0..<25] \<and>
         s' = s\<lparr>grid := grid s', picksLeft := 3, isGameOver := False,
                 slappedPlayer := None, turnLockedRef := False\<rparr>"
proof -
  from run obtain g where pm: "placeMines (mineCount s) 0 blankGrid draws = Some (Inr g)"
    and s': "s' = s\<lparr>grid := g, picksLeft := 3, isGameOver := False,
                     slappedPlayer := None, turnLockedRef := False\<rparr>"
    by (auto simp: initializeGame_def split: option.splits sum.splits)
  from placeMines_result[OF pm nonneg]
  have "length g = 25" and "int (length (filter isMine g)) = mineCount s"
    and "map isRevealed g = replicate 25 False" and "map tid g = [0..<25]"
    by (simp_all add: blankGrid_length blankGrid_no_mines blankGrid_hidden)
       (simp add: blankGrid_def TOTAL_TILES_25 o_def)
  with s' show ?thesis
    by (simp add: minePositions_count minePositions_distinct)
qed

lemma initializeGame_returns:
  assumes "\<forall>r\<in>set draws. r < 25" and "mineCount s \<le> int (card (set draws))"
  shows "\<exists>s'. initializeGame draws s = Some (Inr s')"
proof -
  have "\<exists>g. placeMines (mineCount s) 0 blankGrid draws = Some (Inr g)"
    using assms by (intro placeMines_returns) (simp_all add: blankGrid_length blankGrid_mineSet)
  then show ?thesis by (auto simp: initializeGame_def)
qed

lemma filter_eq_upt: "m < n \<Longrightarrow> filter (\<lambda>i. i = m) [0..<n] = [m]"
  by (induction n) (auto simp: filter_empty_conv)

lemma createGrid_one_mine:
  "length (createGrid mine) = 25 \<and>
   map tile_isMine (createGrid mine) = map (\<lambda>i. i = mine) [0..<25] \<and>
   map revealed (createGrid mine) = replicate 25 False"
  by (simp add: createGrid_def GRID_SIZE_def o_def list_eq_iff_nth_eq)

lemma createGrid_mine_positions:
  "mine < 25 \<Longrightarrow>
   filter (\<lambda>i. tile_isMine (createGrid mine ! i)) [0..<length (createGrid mine)] = [mine]"
proof -
  assume m: "mine < 25"
  have "filter (\<lambda>i. tile_isMine (createGrid mine ! i)) [0..<25] = filter (\<lambda>i. i = mine) [0..<25]"
    by (rule filter_cong) (simp_all add: createGrid_def GRID_SIZE_def)
  with m show ?thesis by (simp add: createGrid_one_mine filter_eq_upt)
qed

lemma exampleGame_mounted: "initializeGame [7] (initialGame [''A'', ''B'']) = Some (Inr exampleGame)"
  by code_simp

text \<open>
  C4. For a mine count between 1 and 24, \<open>initializeGame\<close>, when its loop returns,
  leaves a grid of 25 tiles of which exactly \<open>mineCount\<close> distinct positions are mines,
  and it returns for every sequence of draws that holds at least \<open>mineCount\<close> distinct
  positions. Within the round (a tile press, the end of a turn, the timer of the next
  turn) the mines and the mine count stay as they are. The grid of \<open>createGrid\<close> has 25
  tiles with its one mine at the drawn position.
\<close>

theorem mine_placement:
  assumes "1 \<le> mineCount s" and "mineCount s \<le> 24"
  shows "(initializeGame draws s = Some (Inr s') \<longrightarrow>
            length (grid s') = 25 \<and> distinct (minePositions (grid s')) \<and>
            int (length (minePositions (grid s'))) = mineCount s \<and>
            mineCount s' = mineCount s) \<and>
         ((\<forall>r\<in>set rs. r < 25) \<and> mineCount s \<le> int (card (set rs)) \<longrightarrow>
            (\<exists>s''. initializeGame rs s = Some (Inr s''))) \<and>
         (map isMine (grid (pressTile index s)) = map isMine (grid s) \<and>
          mineCount (pressTile index s) = mineCount s) \<and>
         (grid (pressEndTurn s) = grid s \<and> mineCount (pressEndTurn s) = mineCount s) \<and>
         (grid (timerFires s) = grid s \<and> mineCount (timerFires s) = mineCount s) \<and>
         (mine < 25 \<longrightarrow>
            length (createGrid mine) = 25 \<and>
            filter (\<lambda>i. tile_isMine (createGrid mine ! i)) [0..<length (createGrid mine)] = [mine])"
proof -
  have a: "initializeGame draws s = Some (Inr s') \<longrightarrow>
            length (grid s') = 25 \<and> distinct (minePositions (grid s')) \<and>
            int (length (minePositions (grid s'))) = mineCount s \<and>
            mineCount s' = mineCount s"
  proof
    assume run: "initializeGame draws s = Some (Inr s')"
    from assms have "0 \<le> mineCount s" by simp
    from initializeGame_result[OF run this]
    have r: "length (grid s') = 25" "distinct (minePositions (grid s'))"
      "int (length (minePositions (grid s'))) = mineCount s"
      and eq: "s' = s\<lparr>grid := grid s', picksLeft := 3, isGameOver := False,
                 slappedPlayer := None, turnLockedRef := False\<rparr>" by blast+
    from eq have "mineCount s' = mineCount (s\<lparr>grid := grid s', picksLeft := 3, isGameOver := False,
                 slappedPlayer := None, turnLockedRef := False\<rparr>)" by simp
    then have "mineCount s' = mineCount s" by simp
    with r show "length (grid s') = 25 \<and> distinct (minePositions (grid s')) \<and>
            int (length (minePositions (grid s'))) = mineCount s \<and>
            mineCount s' = mineCount s" by simp
  qed
  have b: "(\<forall>r\<in>set rs. r < 25) \<and> mineCount s \<le> int (card (set rs)) \<longrightarrow>
            (\<exists>s''. initializeGame rs s = Some (Inr s''))"
    using initializeGame_returns by blast
  have c: "mine < 25 \<longrightarrow>
            length (createGrid mine) = 25 \<and>
            filter (\<lambda>i. tile_isMine (createGrid mine ! i)) [0..<length (createGrid mine)] = [mine]"
    using createGrid_mine_positions createGrid_one_mine by blast
  from a b c pressTile_mines pressEndTurn_mines timerFires_mines show ?thesis by blast
qed

theorem mine_placement_witness:
  "1 \<le> mineCount (exampleGame\<lparr>mineCount := 2\<rparr>) \<and> mineCount (exampleGame\<lparr>mineCount := 2\<rparr>) \<le> 24 \<and>
   (\<exists>s'. initializeGame [7, 7, 2] (exampleGame\<lparr>mineCount := 2\<rparr>) = Some (Inr s') \<and>
      length (grid s') = 25 \<and> length (minePositions (grid s')) = 2 \<and> mineCount s' = 2) \<and>
   map isMine (grid (pressTile 7 (exampleGame\<lparr>mineCount := 2\<rparr>))) = map isMine exampleGrid \<and>
   length (createGrid 3) = 25"
proof -
  let ?s = "exampleGame\<lparr>mineCount := 2\<rparr>"
  have h: "1 \<le> mineCount ?s" "mineCount ?s \<le> 24" by simp_all
  have d: "(\<forall>r\<in>set [7, 7, 2 :: nat]. r < 25) \<and> mineCount ?s \<le> int (card (set [7, 7, 2 :: nat]))"
    by simp
  note t = mine_placement[OF h]
  from t[of _ _ "[7, 7, 2]"] d obtain s' where run: "initializeGame [7, 7, 2] ?s = Some (Inr s')"
    by blast
  from t[of "[7, 7, 2]" s'] run
  have "length (grid s') = 25 \<and> int (length (minePositions (grid s'))) = 2 \<and> mineCount s' = 2"
    by simp
  moreover from t[of _ _ _ 7] have "map isMine (grid (pressTile 7 ?s)) = map isMine exampleGrid"
    by (simp add: exampleGame_def)
  moreover from t[of _ _ _ _ 3] have "length (createGrid 3) = 25" by simp
  ultimately show ?thesis using h run by auto
qed

subsection \<open>The invariants of the screens\<close>

lemma initializeGame_fields:
  "initializeGame draws s = Some (Inr s') \<Longrightarrow>
   picksLeft s' = 3 \<and> picksLeftRef s' = picksLeftRef s \<and> mineCount s' = mineCount s \<and>
   currentPlayerIndex s' = currentPlayerIndex s \<and> players s' = players s \<and>
   \<not> isGameOver s' \<and> slappedPlayer s' = None \<and> \<not> turnLockedRef s' \<and> timers s' = timers s"
  by (auto simp: initializeGame_def split: option.splits sum.splits)

lemma rendered_initializeGame_inv:
  assumes "rendered b (initializeGame draws s) = Some (Inr s')"
    and "picksLeft b = picksLeft s" and "picksLeftRef s = picksLeft s"
    and "1 \<le> mineCount s" and "mineCount s \<le> 24"
  shows "gameInv s' \<and> picksLeft s' = 3"
proof -
  from assms(1) obtain t where t: "initializeGame draws s = Some (Inr t)"
    and s': "s' = syncPicksLeftRef b t"
    by (auto simp: rendered_def split: option.splits sum.splits)
  from initializeGame_fields[OF t] assms(2-) s' show ?thesis
    by (auto simp: gameInv_def syncPicksLeftRef_def)
qed

lemma pressTile_inv: "gameInv s \<Longrightarrow> gameInv (pressTile index s)"
  by (auto simp: gameInv_def pressTile_def handleTilePress_def syncPicksLeftRef_def Let_def)

lemma pressTile_picksLeft:
  "picksLeftRef s = picksLeft s \<Longrightarrow> picksLeft (pressTile index s) \<le> picksLeft s"
  by (auto simp: pressTile_def handleTilePress_def syncPicksLeftRef_def Let_def)

lemma pressEndTurn_inv: "gameInv s \<Longrightarrow> gameInv (pressEndTurn s)"
  by (auto simp: gameInv_def pressEndTurn_def handleEndTurn_def nextTurn_def syncPicksLeftRef_def)

lemma timerFires_inv: "gameInv s \<Longrightarrow> gameInv (timerFires s)"
  by (auto simp: gameInv_def timerFires_def nextTurn_def syncPicksLeftRef_def)

lemma pressReset_inv: "gameInv s \<Longrightarrow> pressReset draws s = Some (Inr s') \<Longrightarrow> gameInv s' \<and> picksLeft s' = 3"
  unfolding pressReset_def
  by (rule rendered_initializeGame_inv[where b = s and s = s]) (auto simp: gameInv_def)

lemma pressNextRound_inv:
  assumes "gameInv s" and "pressNextRound draws s = Some (Inr s')"
  shows "gameInv s' \<and> (s' = s \<or> picksLeft s' = 3)"
proof (cases "truthy (slappedPlayer s)")
  case False
  with assms show ?thesis by (simp add: pressNextRound_def)
next
  case True
  with assms(2) obtain t where t: "handleSlapDismiss draws s = Some (Inr t)"
    and s': "s' = syncPicksLeftRef s t"
    by (auto simp: pressNextRound_def rendered_def split: option.splits sum.splits)
  from t obtain u where u: "initializeGame draws (s\<lparr>slappedPlayer := None\<rparr>) = Some (Inr u)"
    and tu: "t = u\<lparr>currentPlayerIndex :=
                          (if length (players s) \<noteq> 0
                           then (currentPlayerIndex s + 1) mod length (players s) else 0)\<rparr>"
    by (auto simp: handleSlapDismiss_def split: option.splits sum.splits)
  from initializeGame_fields[OF u] tu s' assms(1) show ?thesis
    by (auto simp: gameInv_def syncPicksLeftRef_def)
qed

lemma mineCountEffect_inv:
  assumes "mineCountEffect draws b s = Some (Inr s')"
    and "picksLeftRef s = picksLeft s" and "0 \<le> picksLeft s" and "picksLeft s \<le> 3"
    and "1 \<le> mineCount s" and "mineCount s \<le> 24"
  shows "gameInv s' \<and> (picksLeft s' = picksLeft s \<or> picksLeft s' = 3)"
proof (cases "mineCount s \<noteq> mineCount b")
  case False
  with assms show ?thesis by (simp add: mineCountEffect_def gameInv_def)
next
  case True
  with assms(1) have "rendered s (initializeGame draws s) = Some (Inr s')"
    by (simp add: mineCountEffect_def)
  from rendered_initializeGame_inv[OF this] assms(2-) show ?thesis by simp
qed

lemma pressMinus_inv:
  assumes "gameInv s" and "pressMinus draws s = Some (Inr s')"
  shows "gameInv s' \<and> (picksLeft s' = picksLeft s \<or> picksLeft s' = 3)"
proof -
  let ?t = "s\<lparr>mineCount := max 1 (mineCount s - 1)\<rparr>"
  from assms(2) have "mineCountEffect draws s ?t = Some (Inr s')" by (simp add: pressMinus_def)
  from mineCountEffect_inv[OF this] assms(1) show ?thesis by (simp add: gameInv_def)
qed

lemma pressPlus_inv:
  assumes "gameInv s" and "pressPlus draws s = Some (Inr s')"
  shows "gameInv s' \<and> (picksLeft s' = picksLeft s \<or> picksLeft s' = 3)"
proof -
  let ?t = "s\<lparr>mineCount := min 24 (mineCount s + 1)\<rparr>"
  from assms(2) have "mineCountEffect draws s ?t = Some (Inr s')" by (simp add: pressPlus_def)
  from mineCountEffect_inv[OF this] assms(1) show ?thesis by (simp add: gameInv_def)
qed

lemma step_inv:
  assumes "gameInv s" and "step e s = Some (Inr s')"
  shows "gameInv s'"
proof (cases e)
  case (TilePress i) with assms show ?thesis using pressTile_inv by auto
next
  case EndTurnPress with assms show ?thesis using pressEndTurn_inv by auto
next
  case (NextRoundPress d) with assms show ?thesis using pressNextRound_inv by auto
next
  case (ResetPress d) with assms show ?thesis using pressReset_inv by auto
next
  case (MinusPress d) with assms show ?thesis using pressMinus_inv by auto
next
  case (PlusPress d) with assms show ?thesis using pressPlus_inv by auto
next
  case TimerFires with assms show ?thesis using timerFires_inv by auto
qed

lemma step_picksLeft:
  assumes "gameInv s" and "step e s = Some (Inr s')"
  shows "picksLeft s' \<le> picksLeft s \<or> picksLeft s' = 3"
proof (cases e)
  case (TilePress i) with assms show ?thesis using pressTile_picksLeft[of s i] by (auto simp: gameInv_def)
next
  case EndTurnPress with assms show ?thesis
    by (auto simp: pressEndTurn_def handleEndTurn_def nextTurn_def syncPicksLeftRef_def)
next
  case (NextRoundPress d) with assms show ?thesis using pressNextRound_inv by auto
next
  case (ResetPress d) with assms show ?thesis using pressReset_inv by auto
next
  case (MinusPress d) with assms show ?thesis using pressMinus_inv[of s d s'] by auto
next
  case (PlusPress d) with assms show ?thesis using pressPlus_inv[of s d s'] by auto
next
  case TimerFires with assms show ?thesis
    by (auto simp: timerFires_def nextTurn_def syncPicksLeftRef_def)
qed

lemma reachable_inv: "reachable ps s \<Longrightarrow> gameInv s"
proof (induction rule: reachable.induct)
  case reachable_init
  show ?case by (simp add: gameInv_def initialGame_def)
next
  case (reachable_step s e s')
  then show ?case using step_inv by blast
qed

lemma rendered_initializeGame_players:
  "rendered b (initializeGame draws s) = Some (Inr s') \<Longrightarrow> players s' = players s"
  by (auto simp: rendered_def initializeGame_def syncPicksLeftRef_def split: option.splits sum.splits)

lemma step_players: "step e s = Some (Inr s') \<Longrightarrow> players s' = players s"
proof (cases e)
  case (TilePress i)
  moreover assume "step e s = Some (Inr s')"
  ultimately show ?thesis
    by (auto simp: pressTile_def handleTilePress_def syncPicksLeftRef_def Let_def)
next
  case EndTurnPress
  moreover assume "step e s = Some (Inr s')"
  ultimately show ?thesis
    by (auto simp: pressEndTurn_def handleEndTurn_def nextTurn_def syncPicksLeftRef_def)
next
  case (NextRoundPress d)
  moreover assume "step e s = Some (Inr s')"
  ultimately show ?thesis
    by (auto simp: pressNextRound_def rendered_def handleSlapDismiss_def initializeGame_def
        syncPicksLeftRef_def split: option.splits sum.splits if_splits)
next
  case (ResetPress d)
  moreover assume "step e s = Some (Inr s')"
  ultimately show ?thesis using rendered_initializeGame_players[of s d s s']
    by (simp add: pressReset_def)
next
  case (MinusPress d)
  moreover assume "step e s = Some (Inr s')"
  ultimately show ?thesis
    using rendered_initializeGame_players[of "s\<lparr>mineCount := max 1 (mineCount s - 1)\<rparr>" d _ s']
    by (auto simp: pressMinus_def mineCountEffect_def split: if_splits)
next
  case (PlusPress d)
  moreover assume "step e s = Some (Inr s')"
  ultimately show ?thesis
    using rendered_initializeGame_players[of "s\<lparr>mineCount := min 24 (mineCount s + 1)\<rparr>" d _ s']
    by (auto simp: pressPlus_def mineCountEffect_def split: if_splits)
next
  case TimerFires
  moreover assume "step e s = Some (Inr s')"
  ultimately show ?thesis
    by (auto simp: timerFires_def nextTurn_def syncPicksLeftRef_def)
qed

lemma reachable_players: "reachable ps s \<Longrightarrow> players s = ps"
  by (induction rule: reachable.induct) (simp_all add: initialGame_def step_players)

lemma handlePick_inv: "appInv s \<Longrightarrow> appInv (handlePick nextMine tileId s)"
  by (auto simp: appInv_def handlePick_def advanceTurn_def resetRound_def currentPlayer_def
      MAX_PICKS_def Let_def split: option.splits)

lemma app_step_inv: "appInv s \<Longrightarrow> appInv (app_step e s)"
proof (cases e)
  case (AppChangeText t)
  moreover assume "appInv s"
  ultimately show ?thesis by (simp add: appInv_def)
next
  case (AppAddPlayer n)
  moreover assume "appInv s"
  ultimately show ?thesis by (auto simp: appInv_def app_addPlayer_def Let_def)
next
  case (AppPick m t)
  moreover assume "appInv s"
  ultimately show ?thesis by (simp add: handlePick_inv)
qed

lemma app_reachable_inv: "app_reachable s \<Longrightarrow> appInv s"
proof (induction rule: app_reachable.induct)
  case (app_reachable_init mine)
  show ?case by (simp add: appInv_def initialApp_def MAX_PICKS_def)
next
  case (app_reachable_step s e)
  then show ?case by (simp add: app_step_inv)
qed

lemma app_step_picksLeft:
  "app_picksLeft (app_step e s) \<le> app_picksLeft s \<or> app_picksLeft (app_step e s) = MAX_PICKS"
proof (cases e)
  case (AppChangeText t) then show ?thesis by simp
next
  case (AppAddPlayer n) then show ?thesis by (simp add: app_addPlayer_def Let_def)
next
  case (AppPick m t) then show ?thesis
    by (auto simp: handlePick_def advanceTurn_def resetRound_def Let_def split: option.splits)
qed

lemma exampleGame_reachable: "reachable [''A'', ''B''] exampleGame"
proof -
  have "step (ResetPress [7]) (initialGame [''A'', ''B'']) = Some (Inr exampleGame)"
    by code_simp
  with reachable_init show ?thesis by (rule reachable_step)
qed

lemma exampleApp_reachable: "app_reachable exampleApp"
proof -
  let ?s1 = "app_step (AppChangeText '' A '') (initialApp 7)"
  let ?s2 = "app_step (AppAddPlayer 1) ?s1"
  let ?s3 = "app_step (AppChangeText ''B'') ?s2"
  let ?s4 = "app_step (AppAddPlayer 2) ?s3"
  have "?s4 = exampleApp" by code_simp
  moreover have "app_reachable ?s4"
    by (intro app_reachable_step app_reachable_init)
  ultimately show ?thesis by simp
qed

text \<open>
  C9. In every state the game screen reaches, \<open>picksLeft\<close> is not negative, a tile press
  never raises it, and any event leaves it no higher than it was or sets it to the
  budget of 3 (a reset). The same holds of \<open>App.tsx\<close>, where a pick lowers \<open>picksLeft\<close> or
  resets it to \<open>MAX_PICKS\<close>.
\<close>

theorem picksLeft_bounds:
  "(reachable ps s \<longrightarrow>
      0 \<le> picksLeft s \<and> picksLeft (pressTile index s) \<le> picksLeft s \<and>
      (step e s = Some (Inr s') \<longrightarrow> picksLeft s' \<le> picksLeft s \<or> picksLeft s' = 3)) \<and>
   (app_reachable a \<longrightarrow>
      0 \<le> app_picksLeft a \<and>
      (app_picksLeft (app_step ae a) \<le> app_picksLeft a \<or>
       app_picksLeft (app_step ae a) = MAX_PICKS))"
proof (intro conjI impI)
  assume r: "reachable ps s"
  then have inv: "gameInv s" by (rule reachable_inv)
  then show "0 \<le> picksLeft s" by (simp add: gameInv_def)
  from inv show "picksLeft (pressTile index s) \<le> picksLeft s"
    by (simp add: gameInv_def pressTile_picksLeft)
  assume "step e s = Some (Inr s')"
  with inv show "picksLeft s' \<le> picksLeft s \<or> picksLeft s' = 3" by (rule step_picksLeft)
next
  assume "app_reachable a"
  then have "appInv a" by (rule app_reachable_inv)
  then show "0 \<le> app_picksLeft a" by (simp add: appInv_def)
next
  show "app_picksLeft (app_step ae a) \<le> app_picksLeft a \<or>
        app_picksLeft (app_step ae a) = MAX_PICKS" by (rule app_step_picksLeft)
qed

theorem picksLeft_bounds_witness:
  "reachable [''A'', ''B''] exampleGame \<and> 0 \<le> picksLeft exampleGame \<and>
   picksLeft (pressTile 0 exampleGame) \<le> picksLeft exampleGame \<and>
   step (TilePress 0) exampleGame = Some (Inr (pressTile 0 exampleGame)) \<and>
   app_reachable exampleApp \<and> 0 \<le> app_picksLeft exampleApp \<and>
   app_picksLeft (app_step (AppPick 4 0) exampleApp) \<le> app_picksLeft exampleApp"
proof -
  have v: "app_picksLeft (app_step (AppPick 4 0) exampleApp) = 2" by code_simp
  have w: "app_picksLeft exampleApp = 3" by (simp add: exampleApp_def)
  from picksLeft_bounds[of "[''A'', ''B'']" exampleGame 0 "TilePress 0" "pressTile 0 exampleGame"
      exampleApp "AppPick 4 0"]
    exampleGame_reachable exampleApp_reachable v w
  show ?thesis by simp
qed

subsection \<open>Picks, the end of a turn and the mine count\<close>






lemma pressEndTurn_enabled:
  assumes "picksLeft s \<noteq> 3" and "\<not> isGameOver s"
  shows "pressEndTurn s =
           s\<lparr>picksLeft := 3, turnLockedRef := False,
             currentPlayerIndex :=
               (if length (players s) \<noteq> 0
                then (currentPlayerIndex s + 1) mod length (players s) else 0),
             picksLeftRef := 3\<rparr>"
  using assms
  by (simp add: pressEndTurn_def endTurnDisabled_def handleEndTurn_def nextTurn_def
      syncPicksLeftRef_def)

lemma timerFires_scheduled:
  assumes "picksLeft s \<noteq> 3"
  shows "timerFires (s\<lparr>timers := timers s + 1\<rparr>) =
           s\<lparr>picksLeft := 3, turnLockedRef := False,
             currentPlayerIndex :=
               (if length (players s) \<noteq> 0
                then (currentPlayerIndex s + 1) mod length (players s) else 0),
             picksLeftRef := 3\<rparr>"
  using assms by (simp add: timerFires_def nextTurn_def syncPicksLeftRef_def)

lemma pressEndTurn_disabled: "picksLeft s = 3 \<or> isGameOver s \<Longrightarrow> pressEndTurn s = s"
  by (simp add: pressEndTurn_def endTurnDisabled_def)

lemma pressEndTurn_changes:
  assumes "picksLeft s \<noteq> 3" and "\<not> isGameOver s"
  shows "pressEndTurn s \<noteq> s"
proof
  assume "pressEndTurn s = s"
  then have "picksLeft (pressEndTurn s) = picksLeft s" by simp
  with assms show False by (simp add: pressEndTurn_enabled)
qed

text \<open>
  What the end-turn button does. It changes the state exactly when \<open>picksLeft\<close> is not 3
  (in a reachable state: below the budget of 3) and the game-over flag is not set. Then
  it does what the timer of a won round does: 3 picks, the turn unlocked, the next
  player; the grid, the slapped player and the game-over flag stay as they were.
  Neither the button nor its handler looks at the turn lock or at the pending timer.
\<close>

lemma pressEndTurn_cases:
  "(pressEndTurn s \<noteq> s \<longrightarrow> picksLeft s \<noteq> 3 \<and> \<not> isGameOver s) \<and>
   (reachable ps s \<and> pressEndTurn s \<noteq> s \<longrightarrow> picksLeft s < 3) \<and>
   (picksLeft s \<noteq> 3 \<and> \<not> isGameOver s \<longrightarrow>
      pressEndTurn s \<noteq> s \<and>
      pressEndTurn s = timerFires (s\<lparr>timers := timers s + 1\<rparr>) \<and>
      picksLeft (pressEndTurn s) = 3 \<and>
      currentPlayerIndex (pressEndTurn s) =
        (if length (players s) \<noteq> 0
         then (currentPlayerIndex s + 1) mod length (players s) else 0) \<and>
      grid (pressEndTurn s) = grid s \<and>
      slappedPlayer (pressEndTurn s) = slappedPlayer s \<and>
      isGameOver (pressEndTurn s) = isGameOver s) \<and>
   (picksLeft s = 3 \<or> isGameOver s \<longrightarrow> pressEndTurn s = s) \<and>
   (picksLeft s = 3 \<longrightarrow> handleEndTurn s = s)"
proof -
  have only: "pressEndTurn s \<noteq> s \<longrightarrow> picksLeft s \<noteq> 3 \<and> \<not> isGameOver s"
    using pressEndTurn_disabled[of s] by blast
  have below: "reachable ps s \<and> pressEndTurn s \<noteq> s \<longrightarrow> picksLeft s < 3"
  proof
    assume h: "reachable ps s \<and> pressEndTurn s \<noteq> s"
    then have "gameInv s" using reachable_inv by blast
    moreover from h only have "picksLeft s \<noteq> 3" by simp
    ultimately show "picksLeft s < 3" by (simp add: gameInv_def)
  qed
  have does: "picksLeft s \<noteq> 3 \<and> \<not> isGameOver s \<longrightarrow>
      pressEndTurn s \<noteq> s \<and>
      pressEndTurn s = timerFires (s\<lparr>timers := timers s + 1\<rparr>) \<and>
      picksLeft (pressEndTurn s) = 3 \<and>
      currentPlayerIndex (pressEndTurn s) =
        (if length (players s) \<noteq> 0
         then (currentPlayerIndex s + 1) mod length (players s) else 0) \<and>
      grid (pressEndTurn s) = grid s \<and>
      slappedPlayer (pressEndTurn s) = slappedPlayer s \<and>
      isGameOver (pressEndTurn s) = isGameOver s"
  proof
    assume h: "picksLeft s \<noteq> 3 \<and> \<not> isGameOver s"
    then have c: "pressEndTurn s \<noteq> s" by (simp add: pressEndTurn_changes)
    from h have e: "pressEndTurn s =
           s\<lparr>picksLeft := 3, turnLockedRef := False,
             currentPlayerIndex :=
               (if length (players s) \<noteq> 0
                then (currentPlayerIndex s + 1) mod length (players s) else 0),
             picksLeftRef := 3\<rparr>" by (simp add: pressEndTurn_enabled)
    from h timerFires_scheduled[of s] e
    have t: "pressEndTurn s = timerFires (s\<lparr>timers := timers s + 1\<rparr>)"
      by simp
    have f: "picksLeft (pressEndTurn s) = 3 \<and>
      currentPlayerIndex (pressEndTurn s) =
        (if length (players s) \<noteq> 0
         then (currentPlayerIndex s + 1) mod length (players s) else 0) \<and>
      grid (pressEndTurn s) = grid s \<and>
      slappedPlayer (pressEndTurn s) = slappedPlayer s \<and>
      isGameOver (pressEndTurn s) = isGameOver s"
      by (simp add: e)
    from c t f show "pressEndTurn s \<noteq> s \<and>
      pressEndTurn s = timerFires (s\<lparr>timers := timers s + 1\<rparr>) \<and>
      picksLeft (pressEndTurn s) = 3 \<and>
      currentPlayerIndex (pressEndTurn s) =
        (if length (players s) \<noteq> 0
         then (currentPlayerIndex s + 1) mod length (players s) else 0) \<and>
      grid (pressEndTurn s) = grid s \<and>
      slappedPlayer (pressEndTurn s) = slappedPlayer s \<and>
      isGameOver (pressEndTurn s) = isGameOver s"
      by blast
  qed
  have none: "picksLeft s = 3 \<or> isGameOver s \<longrightarrow> pressEndTurn s = s"
    using pressEndTurn_disabled by blast
  have handler: "picksLeft s = 3 \<longrightarrow> handleEndTurn s = s"
    by (simp add: handleEndTurn_def)
  from only below does none handler show ?thesis by blast
qed

lemma pressEndTurn_cases_example:
  "picksLeft (pressTile 0 exampleGame) = 2 \<and> \<not> isGameOver (pressTile 0 exampleGame) \<and>
   pressEndTurn (pressTile 0 exampleGame) \<noteq> pressTile 0 exampleGame \<and>
   picksLeft (pressEndTurn (pressTile 0 exampleGame)) = 3 \<and>
   currentPlayerIndex (pressEndTurn (pressTile 0 exampleGame)) = 1 \<and>
   picksLeft exampleGame = 3 \<and> pressEndTurn exampleGame = exampleGame"
proof -
  let ?s = "pressTile 0 exampleGame"
  have f: "picksLeft ?s = 2" "\<not> isGameOver ?s" "players ?s = [''A'', ''B'']"
    "currentPlayerIndex ?s = 0" "picksLeft exampleGame = 3"
    by code_simp+
  from f have a: "picksLeft ?s \<noteq> 3 \<and> \<not> isGameOver ?s" by simp
  from pressEndTurn_cases[of ?s] a
  have b: "pressEndTurn ?s \<noteq> ?s" "picksLeft (pressEndTurn ?s) = 3"
    "currentPlayerIndex (pressEndTurn ?s) =
       (if length (players ?s) \<noteq> 0
        then (currentPlayerIndex ?s + 1) mod length (players ?s) else 0)"
    by blast+
  from pressEndTurn_cases[of exampleGame] f(5) have c: "pressEndTurn exampleGame = exampleGame" by blast
  from b(3) f have d: "currentPlayerIndex (pressEndTurn ?s) = 1" by simp
  from f b(1,2) c d show ?thesis by simp
qed

lemma rendered_initializeGame_reinitialized:
  assumes run: "rendered b (initializeGame draws s) = Some (Inr s')"
    and nonneg: "0 \<le> mineCount s"
  shows "reinitializedWith (mineCount s) s s'"
proof -
  from run obtain t where t: "initializeGame draws s = Some (Inr t)"
    and s': "s' = syncPicksLeftRef b t"
    by (auto simp: rendered_def split: option.splits sum.splits)
  from initializeGame_result[OF t nonneg] initializeGame_fields[OF t] s'
  show ?thesis by (simp add: reinitializedWith_def syncPicksLeftRef_frame)
qed

lemma rendered_initializeGame_returns:
  assumes "\<forall>r\<in>set draws. r < 25" and "mineCount s \<le> int (card (set draws))"
  shows "\<exists>s'. rendered b (initializeGame draws s) = Some (Inr s')"
proof -
  from initializeGame_returns[OF assms] obtain t where "initializeGame draws s = Some (Inr t)"
    by blast
  then show ?thesis by (simp add: rendered_def)
qed

lemma mineCountEffect_change:
  assumes "mineCountEffect draws b s = Some (Inr s')" and "0 \<le> mineCount s"
  shows "if mineCount s = mineCount b then s' = s else reinitializedWith (mineCount s) s s'"
proof (cases "mineCount s = mineCount b")
  case True
  with assms show ?thesis by (simp add: mineCountEffect_def)
next
  case False
  with assms(1) have "rendered s (initializeGame draws s) = Some (Inr s')"
    by (simp add: mineCountEffect_def)
  from rendered_initializeGame_reinitialized[OF this assms(2)] False show ?thesis by simp
qed

lemma reinitializedWith_frame:
  "reinitializedWith k (s\<lparr>mineCount := m\<rparr>) s' = reinitializedWith k s s'"
  by (simp add: reinitializedWith_def)

lemma pressPlus_change:
  assumes "pressPlus draws s = Some (Inr s')" and "1 \<le> mineCount s"
  shows "if min 24 (mineCount s + 1) = mineCount s then s' = s
         else reinitializedWith (min 24 (mineCount s + 1)) s s'"
proof -
  let ?t = "s\<lparr>mineCount := min 24 (mineCount s + 1)\<rparr>"
  from assms(1) have e: "mineCountEffect draws s ?t = Some (Inr s')" by (simp add: pressPlus_def)
  from assms(2) have "0 \<le> mineCount ?t" by simp
  from mineCountEffect_change[OF e this] show ?thesis
    by (auto simp: reinitializedWith_frame split: if_splits)
qed

lemma pressMinus_change:
  assumes "pressMinus draws s = Some (Inr s')"
  shows "if max 1 (mineCount s - 1) = mineCount s then s' = s
         else reinitializedWith (max 1 (mineCount s - 1)) s s'"
proof -
  let ?t = "s\<lparr>mineCount := max 1 (mineCount s - 1)\<rparr>"
  from assms(1) have e: "mineCountEffect draws s ?t = Some (Inr s')" by (simp add: pressMinus_def)
  have "0 \<le> mineCount ?t" by simp
  from mineCountEffect_change[OF e this] show ?thesis
    by (auto simp: reinitializedWith_frame split: if_splits)
qed

lemma pressPlus_returns:
  assumes "\<forall>r\<in>set draws. r < 25" and "min 24 (mineCount s + 1) \<le> int (card (set draws))"
  shows "\<exists>s'. pressPlus draws s = Some (Inr s')"
proof -
  let ?t = "s\<lparr>mineCount := min 24 (mineCount s + 1)\<rparr>"
  from assms have "mineCount ?t \<le> int (card (set draws))" by simp
  from rendered_initializeGame_returns[OF assms(1) this, of ?t]
  show ?thesis by (auto simp: pressPlus_def mineCountEffect_def)
qed

lemma pressMinus_returns:
  assumes "\<forall>r\<in>set draws. r < 25" and "max 1 (mineCount s - 1) \<le> int (card (set draws))"
  shows "\<exists>s'. pressMinus draws s = Some (Inr s')"
proof -
  let ?t = "s\<lparr>mineCount := max 1 (mineCount s - 1)\<rparr>"
  from assms have "mineCount ?t \<le> int (card (set draws))" by simp
  from rendered_initializeGame_returns[OF assms(1) this, of ?t]
  show ?thesis by (auto simp: pressMinus_def mineCountEffect_def)
qed

text \<open>
  C10. The mine count of the game screen is between 1 and 24 in every reachable state,
  and the two controls keep it there. A press that changes it initializes the round
  again in place, with the new count: a grid of 25 hidden tiles with that many mines
  from fresh draws, 3 picks, the game-over flag and the slapped player cleared, the
  current player unchanged. A press at the end of the range changes nothing. The
  press returns for every sequence of draws with enough distinct positions.
\<close>

theorem mine_count_change:
  "(reachable ps s \<longrightarrow> 1 \<le> mineCount s \<and> mineCount s \<le> 24) \<and>
   (1 \<le> mineCount s \<and> mineCount s \<le> 24 \<longrightarrow>
      1 \<le> min 24 (mineCount s + 1) \<and> min 24 (mineCount s + 1) \<le> 24 \<and>
      1 \<le> max 1 (mineCount s - 1) \<and> max 1 (mineCount s - 1) \<le> 24 \<and>
      (pressPlus draws s = Some (Inr s') \<longrightarrow>
         (if mineCount s = 24 then s' = s
          else reinitializedWith (mineCount s + 1) s s')) \<and>
      (pressMinus draws s = Some (Inr s') \<longrightarrow>
         (if mineCount s = 1 then s' = s
          else reinitializedWith (mineCount s - 1) s s')) \<and>
      ((\<forall>r\<in>set draws. r < 25) \<and> 24 \<le> card (set draws) \<longrightarrow>
         (\<exists>t. pressPlus draws s = Some (Inr t)) \<and> (\<exists>t. pressMinus draws s = Some (Inr t))))"
proof (intro conjI impI)
  assume "reachable ps s"
  then have "gameInv s" by (rule reachable_inv)
  then show "1 \<le> mineCount s" and "mineCount s \<le> 24" by (simp_all add: gameInv_def)
next
  assume r: "1 \<le> mineCount s \<and> mineCount s \<le> 24"
  then show "1 \<le> min 24 (mineCount s + 1)" "min 24 (mineCount s + 1) \<le> 24"
    "1 \<le> max 1 (mineCount s - 1)" "max 1 (mineCount s - 1) \<le> 24" by simp_all
  {
    assume "pressPlus draws s = Some (Inr s')"
    moreover from r have "min 24 (mineCount s + 1) =
        (if mineCount s = 24 then mineCount s else mineCount s + 1)" by auto
    ultimately
    show "if mineCount s = 24 then s' = s else reinitializedWith (mineCount s + 1) s s'"
      using pressPlus_change[of draws s s'] r by (simp split: if_splits)
  }
  {
    assume "pressMinus draws s = Some (Inr s')"
    moreover from r have "max 1 (mineCount s - 1) =
        (if mineCount s = 1 then mineCount s else mineCount s - 1)" by auto
    ultimately
    show "if mineCount s = 1 then s' = s else reinitializedWith (mineCount s - 1) s s'"
      using pressMinus_change[of draws s s'] by (simp split: if_splits)
  }
  {
    assume d: "(\<forall>r\<in>set draws. r < 25) \<and> 24 \<le> card (set draws)"
    with r have "min 24 (mineCount s + 1) \<le> int (card (set draws))"
      "max 1 (mineCount s - 1) \<le> int (card (set draws))" by linarith+
    with d show "\<exists>t. pressPlus draws s = Some (Inr t)" "\<exists>t. pressMinus draws s = Some (Inr t)"
      using pressPlus_returns pressMinus_returns by blast+
  }
qed

theorem mine_count_change_witness:
  "1 \<le> mineCount (pressTile 0 exampleGame) \<and> mineCount (pressTile 0 exampleGame) \<le> 24 \<and>
   picksLeft (pressTile 0 exampleGame) = 2 \<and>
   (\<exists>s'. pressPlus [3, 9] (pressTile 0 exampleGame) = Some (Inr s') \<and>
      reinitializedWith 2 (pressTile 0 exampleGame) s' \<and> picksLeft s' = 3) \<and>
   pressMinus [] (pressTile 0 exampleGame) = Some (Inr (pressTile 0 exampleGame))"
proof -
  let ?s = "pressTile 0 exampleGame"
  have f: "mineCount ?s = 1" "picksLeft ?s = 2" by code_simp+
  have "case pressPlus [3, 9] ?s of Some (Inr t) \<Rightarrow> True | _ \<Rightarrow> False" by code_simp
  then obtain s' where run: "pressPlus [3, 9] ?s = Some (Inr s')"
    by (auto split: option.splits sum.splits)
  have m: "pressMinus [] ?s = Some (Inr ?s)" by code_simp
  from mine_count_change[of _ ?s "[3, 9]" s'] f run
  have a: "reinitializedWith 2 ?s s'" by simp
  then have b: "picksLeft s' = 3" by (simp add: reinitializedWith_def)
  from mine_count_change[of _ ?s "[]" ?s] f m have "?s = ?s" by simp
  with f run a b m show ?thesis by simp
qed

subsection \<open>The end of a round\<close>

lemma wonGame_reachable: "reachable [''A'', ''B''] wonGame"
proof -
  have s0: "step (TilePress 0) exampleGame = Some (Inr (pressTile 0 exampleGame))"
    by simp
  have s1: "step (TilePress 1) (pressTile 0 exampleGame) =
      Some (Inr (pressTile 1 (pressTile 0 exampleGame)))"
    by simp
  have s2: "step (TilePress 2) (pressTile 1 (pressTile 0 exampleGame)) = Some (Inr wonGame)"
    by (simp add: wonGame_def)
  note r0 = reachable_step[OF exampleGame_reachable s0]
  note r1 = reachable_step[OF r0 s1]
  show ?thesis by (rule reachable_step[OF r1 s2])
qed

lemma slappedGame_reachable: "reachable [''A'', ''B''] slappedGame"
proof -
  have s0: "step (TilePress 7) exampleGame = Some (Inr slappedGame)"
    by (simp add: slappedGame_def)
  show ?thesis by (rule reachable_step[OF exampleGame_reachable s0])
qed

lemma emptyRosterGame_reachable: "reachable [] emptyRosterGame"
proof -
  have "step (ResetPress [7]) (initialGame []) = Some (Inr emptyRosterGame)"
    by code_simp
  with reachable_init show ?thesis by (rule reachable_step)
qed

text \<open>
  C2, as stated, fails on the game screen. After three safe picks the round is won;
  when the timer fires, the grid is the one it was, with the tiles the player revealed
  still revealed and the mine where it was.
\<close>

theorem round_won_keeps_grid:
  "roundWon wonGame \<and> players wonGame = [''A'', ''B''] \<and>
   grid (timerFires wonGame) = grid wonGame \<and>
   isRevealed (grid (timerFires wonGame) ! 0) \<and>
   minePositions (grid (timerFires wonGame)) = [7]"
  by code_simp

lemma pressNextRound_slapped:
  assumes sl: "slapped s" and ref: "picksLeftRef s = picksLeft s" and mc: "0 \<le> mineCount s"
    and run: "pressNextRound draws s = Some (Inr s')"
  shows "length (grid s') = 25 \<and> map isRevealed (grid s') = replicate 25 False \<and>
         int (length (minePositions (grid s'))) = mineCount s \<and> distinct (minePositions (grid s')) \<and>
         picksLeft s' = 3 \<and>
         currentPlayerIndex s' = (currentPlayerIndex s + 1) mod length (players s) \<and>
         players s' = players s \<and> awaitingPick s'"
proof -
  from sl have tr: "truthy (slappedPlayer s)" and ne: "length (players s) \<noteq> 0"
    by (auto simp: slapped_def)
  from run tr obtain t where t: "handleSlapDismiss draws s = Some (Inr t)"
    and s': "s' = syncPicksLeftRef s t"
    by (auto simp: pressNextRound_def rendered_def split: option.splits sum.splits)
  from t obtain u where u: "initializeGame draws (s\<lparr>slappedPlayer := None\<rparr>) = Some (Inr u)"
    and tu: "t = u\<lparr>currentPlayerIndex :=
                          (if length (players s) \<noteq> 0
                           then (currentPlayerIndex s + 1) mod length (players s) else 0)\<rparr>"
    by (auto simp: handleSlapDismiss_def split: option.splits sum.splits)
  from mc have "0 \<le> mineCount (s\<lparr>slappedPlayer := None\<rparr>)" by simp
  from initializeGame_result[OF u this] initializeGame_fields[OF u] tu s' ne ref
  show ?thesis
    by (auto simp: awaitingPick_def syncPicksLeftRef_def truthy_def)
qed

lemma pressNextRound_returns:
  assumes "slapped s" and "\<forall>r\<in>set draws. r < 25" and "mineCount s \<le> int (card (set draws))"
  shows "\<exists>t. pressNextRound draws s = Some (Inr t)"
proof -
  from assms(3) have "mineCount (s\<lparr>slappedPlayer := None\<rparr>) \<le> int (card (set draws))" by simp
  from initializeGame_returns[OF assms(2) this] obtain u
    where "initializeGame draws (s\<lparr>slappedPlayer := None\<rparr>) = Some (Inr u)" by blast
  then show ?thesis
    by (simp add: pressNextRound_def rendered_def handleSlapDismiss_def)
qed

lemma timerFires_roundWon:
  assumes "roundWon s" and "players s \<noteq> []"
  shows "picksLeft (timerFires s) = 3 \<and>
         currentPlayerIndex (timerFires s) = (currentPlayerIndex s + 1) mod length (players s) \<and>
         awaitingPick (timerFires s) \<and> grid (timerFires s) = grid s \<and>
         timers (timerFires s) = timers s - 1"
  using assms
  by (auto simp: roundWon_def awaitingPick_def timerFires_def nextTurn_def syncPicksLeftRef_def)

text \<open>
  C2, amended. From the slapped state, the button of the modal initializes the game
  again (25 hidden tiles, \<open>mineCount\<close> mines from fresh draws), sets \<open>picksLeft\<close> to 3,
  moves to the player at \<open>(index + 1) mod playerCount\<close> and leaves a state that awaits a
  pick; it returns for every sequence of draws with enough distinct positions. From
  the won round, the timer sets \<open>picksLeft\<close> to 3, moves to the player at
  \<open>(index + 1) mod playerCount\<close> and leaves a state that awaits a pick, on the grid as it
  was.
\<close>

theorem round_end_advance:
  "(slapped s \<and> players s \<noteq> [] \<and> picksLeftRef s = picksLeft s \<and> 0 \<le> mineCount s \<and>
    pressNextRound draws s = Some (Inr s') \<longrightarrow>
      length (grid s') = 25 \<and> map isRevealed (grid s') = replicate 25 False \<and>
      int (length (minePositions (grid s'))) = mineCount s \<and>
      picksLeft s' = 3 \<and>
      currentPlayerIndex s' = (currentPlayerIndex s + 1) mod length (players s) \<and>
      awaitingPick s') \<and>
   (slapped s \<and> (\<forall>r\<in>set draws. r < 25) \<and> mineCount s \<le> int (card (set draws)) \<longrightarrow>
      (\<exists>t. pressNextRound draws s = Some (Inr t))) \<and>
   (roundWon s \<and> players s \<noteq> [] \<longrightarrow>
      picksLeft (timerFires s) = 3 \<and>
      currentPlayerIndex (timerFires s) = (currentPlayerIndex s + 1) mod length (players s) \<and>
      awaitingPick (timerFires s) \<and> grid (timerFires s) = grid s)"
proof (intro conjI impI)
  assume h: "slapped s \<and> players s \<noteq> [] \<and> picksLeftRef s = picksLeft s \<and> 0 \<le> mineCount s \<and>
    pressNextRound draws s = Some (Inr s')"
  then have r: "length (grid s') = 25 \<and> map isRevealed (grid s') = replicate 25 False \<and>
         int (length (minePositions (grid s'))) = mineCount s \<and> distinct (minePositions (grid s')) \<and>
         picksLeft s' = 3 \<and>
         currentPlayerIndex s' = (currentPlayerIndex s + 1) mod length (players s) \<and>
         players s' = players s \<and> awaitingPick s'"
    using pressNextRound_slapped[of s draws s'] by blast
  from r show "length (grid s') = 25" "map isRevealed (grid s') = replicate 25 False"
    "int (length (minePositions (grid s'))) = mineCount s" "picksLeft s' = 3"
    "currentPlayerIndex s' = (currentPlayerIndex s + 1) mod length (players s)"
    "awaitingPick s'" by blast+
next
  assume "slapped s \<and> (\<forall>r\<in>set draws. r < 25) \<and> mineCount s \<le> int (card (set draws))"
  then show "\<exists>t. pressNextRound draws s = Some (Inr t)"
    using pressNextRound_returns by blast
next
  assume h: "roundWon s \<and> players s \<noteq> []"
  then have r: "picksLeft (timerFires s) = 3 \<and>
         currentPlayerIndex (timerFires s) = (currentPlayerIndex s + 1) mod length (players s) \<and>
         awaitingPick (timerFires s) \<and> grid (timerFires s) = grid s \<and>
         timers (timerFires s) = timers s - 1"
    using timerFires_roundWon by blast
  from r show "picksLeft (timerFires s) = 3"
    "currentPlayerIndex (timerFires s) = (currentPlayerIndex s + 1) mod length (players s)"
    "awaitingPick (timerFires s)" "grid (timerFires s) = grid s" by blast+
qed

theorem round_end_advance_witness:
  "slapped slappedGame \<and> players slappedGame = [''A'', ''B''] \<and>
   (\<exists>s'. pressNextRound [4] slappedGame = Some (Inr s') \<and> length (grid s') = 25 \<and>
      picksLeft s' = 3 \<and> currentPlayerIndex s' = 1 \<and> awaitingPick s') \<and>
   roundWon wonGame \<and> picksLeft (timerFires wonGame) = 3 \<and>
   currentPlayerIndex (timerFires wonGame) = 1 \<and> awaitingPick (timerFires wonGame)"
proof -
  have f: "slapped slappedGame" "players slappedGame = [''A'', ''B'']"
    "picksLeftRef slappedGame = picksLeft slappedGame" "mineCount slappedGame = 1"
    "currentPlayerIndex slappedGame = 0"
    by code_simp+
  have d: "\<forall>r\<in>set [4 :: nat]. r < 25" by simp
  from round_end_advance[of slappedGame "[4]"] f d
  obtain s' where run: "pressNextRound [4] slappedGame = Some (Inr s')" by auto
  from round_end_advance[of slappedGame "[4]" s'] f run
  have a: "length (grid s') = 25 \<and> picksLeft s' = 3 \<and> currentPlayerIndex s' = 1 \<and>
    awaitingPick s'" by simp
  have g: "roundWon wonGame" "players wonGame = [''A'', ''B'']"
    "currentPlayerIndex wonGame = 0" by code_simp+
  from round_end_advance[of wonGame] g
  have b: "picksLeft (timerFires wonGame) = 3 \<and> currentPlayerIndex (timerFires wonGame) = 1 \<and>
    awaitingPick (timerFires wonGame)" by simp
  from f run a g b show ?thesis by blast
qed

text \<open>
  C6. The end of a turn by hand may succeed only while the round is not over. The code
  breaks this after a won round. When A has used the third pick safely, \<open>picksLeft\<close> is
  0, the turn is locked and the timer of the next turn is pending: a tile press is
  ignored, as the lock demands, but the end-turn button is enabled, since it is
  disabled only for \<open>picksLeft\<close> 3 and for the game-over flag, and \<open>handleEndTurn\<close> tests
  neither the lock nor \<open>picksLeft\<close> 0. The press hands the turn to B with 3 picks and
  leaves the timer pending; when it fires, the turn goes on to A: B is skipped.
\<close>

theorem end_turn_after_won_round:
  "reachable [''A'', ''B''] wonGame \<and> roundWon wonGame \<and>
   picksLeft wonGame = 0 \<and> turnLockedRef wonGame \<and> timers wonGame = 1 \<and>
   \<not> endTurnDisabled wonGame \<and>
   handleTilePress 5 wonGame = wonGame \<and>
   pressEndTurn wonGame \<noteq> wonGame \<and>
   currentPlayerIndex wonGame = 0 \<and>
   currentPlayerIndex (pressEndTurn wonGame) = 1 \<and>
   picksLeft (pressEndTurn wonGame) = 3 \<and>
   timers (pressEndTurn wonGame) = 1 \<and>
   currentPlayerIndex (timerFires (pressEndTurn wonGame)) = 0"
proof -
  have f: "roundWon wonGame" "picksLeft wonGame = 0" "turnLockedRef wonGame"
    "timers wonGame = 1" "\<not> endTurnDisabled wonGame" "handleTilePress 5 wonGame = wonGame"
    "currentPlayerIndex wonGame = 0" "currentPlayerIndex (pressEndTurn wonGame) = 1"
    "picksLeft (pressEndTurn wonGame) = 3" "timers (pressEndTurn wonGame) = 1"
    "currentPlayerIndex (timerFires (pressEndTurn wonGame)) = 0"
    by code_simp+
  from f(7,8) have "pressEndTurn wonGame \<noteq> wonGame" by auto
  with f wonGame_reachable show ?thesis by simp
qed

subsection \<open>Ignored taps and the mine\<close>

text \<open>
  C3, as stated, fails on the game screen. Opened without a roster, the screen still
  takes a press on a hidden tile: the tile is revealed and a pick is used, and a press
  on the mine ends the game.
\<close>

theorem empty_roster_tap_changes_state:
  "players emptyRosterGame = [] \<and>
   pressTile 0 emptyRosterGame \<noteq> emptyRosterGame \<and>
   isRevealed (grid (pressTile 0 emptyRosterGame) ! 0) \<and>
   picksLeft emptyRosterGame = 3 \<and> picksLeft (pressTile 0 emptyRosterGame) = 2 \<and>
   \<not> isGameOver emptyRosterGame \<and> isGameOver (pressTile 7 emptyRosterGame)"
proof -
  have f: "players emptyRosterGame = []"
    "isRevealed (grid (pressTile 0 emptyRosterGame) ! 0)"
    "picksLeft emptyRosterGame = 3" "picksLeft (pressTile 0 emptyRosterGame) = 2"
    "\<not> isGameOver emptyRosterGame" "isGameOver (pressTile 7 emptyRosterGame)"
    by code_simp+
  from f(3,4) have "pressTile 0 emptyRosterGame \<noteq> emptyRosterGame" by auto
  with f show ?thesis by simp
qed

lemma handleTilePress_ignored:
  "(index < length (grid s) \<and> isRevealed (grid s ! index)) \<or> picksLeftRef s \<le> 0 \<Longrightarrow>
   handleTilePress index s = s"
  by (auto simp: handleTilePress_def)

lemma pressTile_ignored:
  "(index < length (grid s) \<and> isRevealed (grid s ! index)) \<or> picksLeft s = 0 \<Longrightarrow>
   pressTile index s = s"
  by (auto simp: pressTile_def tileDisabled_def)

lemma handlePick_ignored:
  "(find (\<lambda>t. tile_id t = tileId) (app_grid a) = Some t \<and> revealed t) \<or>
   app_picksLeft a = 0 \<or> app_players a = [] \<Longrightarrow>
   handlePick nextMine tileId a = a"
  by (auto simp: handlePick_def currentPlayer_def split: option.splits)

text \<open>
  C3, amended. On the game screen a press on a revealed tile, or a press when
  \<open>picksLeft\<close> is 0, leaves the whole state as it is; the handler itself ignores a
  revealed tile and a ref that is 0 or less. In \<open>App.tsx\<close> a pick of a revealed tile, a
  pick when \<open>picksLeft\<close> is 0 and a pick with an empty roster leave the whole state as
  it is.
\<close>

theorem ignored_taps:
  "(index < length (grid s) \<and> isRevealed (grid s ! index) \<longrightarrow>
      pressTile index s = s \<and> handleTilePress index s = s) \<and>
   (picksLeft s = 0 \<longrightarrow> pressTile index s = s) \<and>
   (picksLeftRef s \<le> 0 \<longrightarrow> handleTilePress index s = s) \<and>
   (find (\<lambda>t. tile_id t = tileId) (app_grid a) = Some t \<and> revealed t \<longrightarrow>
      handlePick nextMine tileId a = a) \<and>
   (app_picksLeft a = 0 \<longrightarrow> handlePick nextMine tileId a = a) \<and>
   (app_players a = [] \<longrightarrow> handlePick nextMine tileId a = a)"
  using handleTilePress_ignored[of index s] pressTile_ignored[of index s]
    handlePick_ignored[of tileId a t nextMine]
  by blast

theorem ignored_taps_witness:
  "isRevealed (grid (pressTile 0 exampleGame) ! 0) \<and>
   pressTile 0 (pressTile 0 exampleGame) = pressTile 0 exampleGame \<and>
   picksLeft wonGame = 0 \<and> pressTile 5 wonGame = wonGame \<and>
   handleTilePress 5 wonGame = wonGame \<and>
   revealed (app_grid (handlePick 4 0 exampleApp) ! 0) \<and>
   handlePick 4 0 (handlePick 4 0 exampleApp) = handlePick 4 0 exampleApp \<and>
   handlePick 4 0 (exampleApp\<lparr>app_picksLeft := 0\<rparr>) = exampleApp\<lparr>app_picksLeft := 0\<rparr> \<and>
   app_players (initialApp 7) = [] \<and> handlePick 4 0 (initialApp 7) = initialApp 7"
proof -
  let ?s = "pressTile 0 exampleGame"
  let ?a = "handlePick 4 0 exampleApp"
  have f: "0 < length (grid ?s)" "isRevealed (grid ?s ! 0)" "picksLeft wonGame = 0"
    "picksLeftRef wonGame = 0"
    "find (\<lambda>t. tile_id t = 0) (app_grid ?a) = Some \<lparr>tile_id = 0, revealed = True, tile_isMine = False\<rparr>"
    "revealed (app_grid ?a ! 0)" "app_players (initialApp 7) = []"
    by code_simp+
  from ignored_taps[of 0 ?s 0 ?a "\<lparr>tile_id = 0, revealed = True, tile_isMine = False\<rparr>" 4] f
  have a: "pressTile 0 ?s = ?s" "handlePick 4 0 ?a = ?a" by simp_all
  from ignored_taps[of 5 wonGame] f have b: "pressTile 5 wonGame = wonGame"
    "handleTilePress 5 wonGame = wonGame" by simp_all
  from ignored_taps[of _ _ 0 "exampleApp\<lparr>app_picksLeft := 0\<rparr>" _ 4]
  have c: "handlePick 4 0 (exampleApp\<lparr>app_picksLeft := 0\<rparr>) = exampleApp\<lparr>app_picksLeft := 0\<rparr>"
    by simp
  from ignored_taps[of _ _ 0 "initialApp 7" _ 4] f
  have d: "handlePick 4 0 (initialApp 7) = initialApp 7" by simp
  from f a b c d show ?thesis by simp
qed

lemma slap_current_player:
  assumes "i < length ps"
  shows "map slaps (map (\<lambda>(idx, p). if idx = i then p\<lparr>slaps := slaps p + 1\<rparr> else p)
                      (enumerate 0 ps)) = (map slaps ps)[i := slaps (ps ! i) + 1] \<and>
         map name (map (\<lambda>(idx, p). if idx = i then p\<lparr>slaps := slaps p + 1\<rparr> else p)
                      (enumerate 0 ps)) = map name ps \<and>
         map player_id (map (\<lambda>(idx, p). if idx = i then p\<lparr>slaps := slaps p + 1\<rparr> else p)
                      (enumerate 0 ps)) = map player_id ps"
  using assms by (simp add: list_eq_iff_nth_eq nth_enumerate_eq nth_list_update)

lemma handlePick_mine:
  assumes "currentPlayer a = Some cp" and "app_picksLeft a \<noteq> 0"
    and "find (\<lambda>t. tile_id t = tileId) (app_grid a) = Some t"
    and "\<not> revealed t" and "tile_isMine t"
  shows "handlePick nextMine tileId a =
           resetRound ((app_currentPlayerIndex a + 1) mod length (app_players a))
             (Some (name cp @ '' hit the mine! Slap!'')) nextMine
             (a\<lparr>app_players :=
                  map (\<lambda>(idx, p). if idx = app_currentPlayerIndex a
                                   then p\<lparr>slaps := slaps p + 1\<rparr> else p)
                    (enumerate 0 (app_players a))\<rparr>)"
  using assms
  by (auto simp: handlePick_def advanceTurn_def resetRound_def currentPlayer_def Let_def
      split: if_splits)

lemma pressTile_mine:
  assumes "awaitingPick s" and "index < length (grid s)"
    and "\<not> isRevealed (grid s ! index)" and "isMine (grid s ! index)"
  shows "pressTile index s =
           s\<lparr>grid := (grid s)[index := (grid s ! index)\<lparr>isRevealed := True\<rparr>],
             turnLockedRef := True,
             slappedPlayer :=
               (if currentPlayerIndex s < length (players s)
                then Some (players s ! currentPlayerIndex s) else None),
             isGameOver := True\<rparr>"
  using assms
  by (auto simp: awaitingPick_def pressTile_def tileDisabled_def handleTilePress_def
      syncPicksLeftRef_def Let_def)

text \<open>
  C1, as stated, fails on \<open>App.tsx\<close>, the screen that keeps slap counts. When A presses
  the mine, A's count goes from 0 to 1 and the same handler starts the round of B: the
  state awaits a pick of player 1 on a fresh grid with 3 picks. No slapped state
  stands between.
\<close>

theorem app_mine_hit_advances_at_once:
  "map slaps (app_players (handlePick 4 7 exampleApp)) = [1, 0] \<and>
   app_awaitingPick (handlePick 4 7 exampleApp) \<and>
   app_currentPlayerIndex exampleApp = 0 \<and>
   app_currentPlayerIndex (handlePick 4 7 exampleApp) = 1 \<and>
   app_picksLeft (handlePick 4 7 exampleApp) = 3 \<and>
   app_grid (handlePick 4 7 exampleApp) = createGrid 4"
  by code_simp

text \<open>
  C1, amended. In \<open>App.tsx\<close>, picking the hidden mine with any number of picks left
  adds 1 to the slap count of the current player and leaves every other count, name
  and id as it was; the same handler advances the turn: the next player, \<open>MAX_PICKS\<close>
  picks, a new grid. On the game screen, which keeps no slap counts, pressing the
  hidden mine in a state that awaits a pick reveals the tile, locks the turn, sets the
  game-over flag and makes the current player the slapped one, the picks left
  unchanged: the state is the slapped one.
\<close>

theorem mine_hit:
  "(currentPlayer a = Some cp \<and> app_picksLeft a \<noteq> 0 \<and>
    find (\<lambda>t. tile_id t = tileId) (app_grid a) = Some t \<and> \<not> revealed t \<and>
    tile_isMine t \<longrightarrow>
      map slaps (app_players (handlePick nextMine tileId a)) =
        (map slaps (app_players a))[app_currentPlayerIndex a := slaps cp + 1] \<and>
      map name (app_players (handlePick nextMine tileId a)) = map name (app_players a) \<and>
      map player_id (app_players (handlePick nextMine tileId a)) =
        map player_id (app_players a) \<and>
      app_currentPlayerIndex (handlePick nextMine tileId a) =
        (app_currentPlayerIndex a + 1) mod length (app_players a) \<and>
      app_picksLeft (handlePick nextMine tileId a) = MAX_PICKS \<and>
      app_grid (handlePick nextMine tileId a) = createGrid nextMine) \<and>
   (awaitingPick s \<and> index < length (grid s) \<and> \<not> isRevealed (grid s ! index) \<and>
    isMine (grid s ! index) \<longrightarrow>
      pressTile index s =
        s\<lparr>grid := (grid s)[index := (grid s ! index)\<lparr>isRevealed := True\<rparr>],
          turnLockedRef := True,
          slappedPlayer :=
            (if currentPlayerIndex s < length (players s)
             then Some (players s ! currentPlayerIndex s) else None),
          isGameOver := True\<rparr> \<and>
      picksLeft (pressTile index s) = picksLeft s \<and>
      (currentPlayerIndex s < length (players s) \<and> players s ! currentPlayerIndex s \<noteq> [] \<longrightarrow>
         slapped (pressTile index s)))"
proof (intro conjI impI)
  assume h: "currentPlayer a = Some cp \<and> app_picksLeft a \<noteq> 0 \<and>
    find (\<lambda>t. tile_id t = tileId) (app_grid a) = Some t \<and> \<not> revealed t \<and> tile_isMine t"
  then have eq: "handlePick nextMine tileId a =
           resetRound ((app_currentPlayerIndex a + 1) mod length (app_players a))
             (Some (name cp @ '' hit the mine! Slap!'')) nextMine
             (a\<lparr>app_players :=
                  map (\<lambda>(idx, p). if idx = app_currentPlayerIndex a
                                   then p\<lparr>slaps := slaps p + 1\<rparr> else p)
                    (enumerate 0 (app_players a))\<rparr>)"
    by (simp add: handlePick_mine)
  from h have i: "app_currentPlayerIndex a < length (app_players a)"
    and cp: "cp = app_players a ! app_currentPlayerIndex a"
    by (auto simp: currentPlayer_def split: if_splits)
  note sl = slap_current_player[OF i]
  show "map slaps (app_players (handlePick nextMine tileId a)) =
        (map slaps (app_players a))[app_currentPlayerIndex a := slaps cp + 1]"
    using sl by (simp add: eq resetRound_def cp)
  show "map name (app_players (handlePick nextMine tileId a)) = map name (app_players a)"
    using sl by (simp add: eq resetRound_def)
  show "map player_id (app_players (handlePick nextMine tileId a)) =
        map player_id (app_players a)"
    using sl by (simp add: eq resetRound_def)
  show "app_currentPlayerIndex (handlePick nextMine tileId a) =
        (app_currentPlayerIndex a + 1) mod length (app_players a)"
    by (simp add: eq resetRound_def)
  show "app_picksLeft (handlePick nextMine tileId a) = MAX_PICKS"
    by (simp add: eq resetRound_def)
  show "app_grid (handlePick nextMine tileId a) = createGrid nextMine"
    by (simp add: eq resetRound_def)
next
  assume h: "awaitingPick s \<and> index < length (grid s) \<and> \<not> isRevealed (grid s ! index) \<and>
    isMine (grid s ! index)"
  then have eq: "pressTile index s =
           s\<lparr>grid := (grid s)[index := (grid s ! index)\<lparr>isRevealed := True\<rparr>],
             turnLockedRef := True,
             slappedPlayer :=
               (if currentPlayerIndex s < length (players s)
                then Some (players s ! currentPlayerIndex s) else None),
             isGameOver := True\<rparr>"
    by (simp add: pressTile_mine)
  then show "pressTile index s =
           s\<lparr>grid := (grid s)[index := (grid s ! index)\<lparr>isRevealed := True\<rparr>],
             turnLockedRef := True,
             slappedPlayer :=
               (if currentPlayerIndex s < length (players s)
                then Some (players s ! currentPlayerIndex s) else None),
             isGameOver := True\<rparr>" .
  show "picksLeft (pressTile index s) = picksLeft s" by (simp add: eq)
  assume "currentPlayerIndex s < length (players s) \<and> players s ! currentPlayerIndex s \<noteq> []"
  then show "slapped (pressTile index s)"
    by (simp add: eq slapped_def truthy_def)
qed

theorem mine_hit_witness:
  "currentPlayer exampleApp = Some \<lparr>player_id = 1, name = ''A'', slaps = 0\<rparr> \<and>
   app_picksLeft exampleApp = 3 \<and>
   map slaps (app_players (handlePick 4 7 exampleApp)) = [1, 0] \<and>
   map name (app_players (handlePick 4 7 exampleApp)) = [''A'', ''B''] \<and>
   map slaps (app_players (handlePick 4 7 (exampleApp\<lparr>app_picksLeft := 1\<rparr>))) = [1, 0] \<and>
   awaitingPick exampleGame \<and> isMine (grid exampleGame ! 7) \<and>
   slapped slappedGame \<and> slappedPlayer slappedGame = Some ''A'' \<and>
   picksLeft slappedGame = 3"
proof -
  let ?cp = "\<lparr>player_id = 1, name = ''A'', slaps = 0\<rparr>"
  let ?t = "\<lparr>tile_id = 7, revealed = False, tile_isMine = True\<rparr>"
  let ?b = "exampleApp\<lparr>app_picksLeft := 1\<rparr>"
  have f: "currentPlayer exampleApp = Some ?cp" "app_picksLeft exampleApp = 3"
    "find (\<lambda>t. tile_id t = 7) (app_grid exampleApp) = Some ?t"
    "map slaps (app_players exampleApp) = [0, 0]" "map name (app_players exampleApp) = [''A'', ''B'']"
    "app_currentPlayerIndex exampleApp = 0"
    by code_simp+
  have g: "currentPlayer ?b = Some ?cp" "app_picksLeft ?b = 1"
    "find (\<lambda>t. tile_id t = 7) (app_grid ?b) = Some ?t"
    "map slaps (app_players ?b) = [0, 0]" "app_currentPlayerIndex ?b = 0"
    by code_simp+
  from mine_hit[of exampleApp ?cp 7 ?t 4] f
  have a: "map slaps (app_players (handlePick 4 7 exampleApp)) = [1, 0]"
    "map name (app_players (handlePick 4 7 exampleApp)) = [''A'', ''B'']" by simp_all
  from mine_hit[of ?b ?cp 7 ?t 4] g
  have b: "map slaps (app_players (handlePick 4 7 ?b)) = [1, 0]" by simp
  have e: "awaitingPick exampleGame" "length (grid exampleGame) = 25"
    "\<not> isRevealed (grid exampleGame ! 7)" "isMine (grid exampleGame ! 7)"
    "currentPlayerIndex exampleGame = 0" "players exampleGame = [''A'', ''B'']"
    "picksLeft exampleGame = 3"
    by code_simp+
  from e have h: "awaitingPick exampleGame \<and> 7 < length (grid exampleGame) \<and>
    \<not> isRevealed (grid exampleGame ! 7) \<and> isMine (grid exampleGame ! 7)"
    and k: "currentPlayerIndex exampleGame < length (players exampleGame) \<and>
      players exampleGame ! currentPlayerIndex exampleGame \<noteq> []"
    by simp_all
  from mine_hit[of _ _ _ _ _ exampleGame 7] h k
  have c0: "slapped (pressTile 7 exampleGame)"
    "picksLeft (pressTile 7 exampleGame) = picksLeft exampleGame" by blast+
  have c1: "slappedPlayer slappedGame = Some ''A''" by code_simp
  from c0 c1 e have c: "slapped slappedGame" "picksLeft slappedGame = 3"
    "slappedPlayer slappedGame = Some ''A''"
    by (simp_all add: slappedGame_def)
  from f a b e c show ?thesis by simp
qed

subsection \<open>The roster\<close>

lemma addPlayer_inv: "rosterInv s \<Longrightarrow> rosterInv (snd (addPlayer s))"
  by (auto simp: rosterInv_def addPlayer_def)

lemma removePlayer_inv: "rosterInv s \<Longrightarrow> rosterInv (removePlayer index s)"
proof -
  assume inv: "rosterInv s"
  then have d: "distinct (su_players s)" by (simp add: rosterInv_def)
  have "set (take index (su_players s)) \<inter> set (drop (index + 1) (su_players s)) = {}"
    using d by (intro set_take_disj_set_drop_if_distinct) simp_all
  moreover have "[] \<notin> set (take index (su_players s))" "[] \<notin> set (drop (index + 1) (su_players s))"
    using inv by (auto simp: rosterInv_def dest: in_set_takeD in_set_dropD)
  ultimately show ?thesis using d by (simp add: rosterInv_def removePlayer_def)
qed

lemma su_step_inv: "rosterInv s \<Longrightarrow> rosterInv (su_step e s)"
  by (cases e) (simp_all add: addPlayer_inv removePlayer_inv, simp add: rosterInv_def)

lemma su_run_inv: "rosterInv (su_run es)"
proof (induction es rule: rev_induct)
  case Nil
  show ?case by (simp add: su_run_def rosterInv_def initialSetup_def)
next
  case (snoc e es)
  then show ?case by (simp add: su_run_def su_step_inv)
qed

text \<open>
  C7, as stated, fails on \<open>App.tsx\<close>: its \<open>addPlayer\<close> has no check of the names. With A
  and B on the roster, adding the name of A again, with spaces around it, puts a second
  A on the roster.
\<close>

theorem app_accepts_duplicate_name:
  "map name (app_players exampleApp) = [''A'', ''B''] \<and> trim '' A '' = ''A'' \<and>
   map name (app_players (app_addPlayer 3 (exampleApp\<lparr>app_playerName := '' A ''\<rparr>))) =
     [''A'', ''B'', ''A'']"
  by code_simp

text \<open>
  C7, amended. On the setup screen, in every state its events reach, adding a name
  whose trimmed form is on the roster shows the alert "Duplicate Name" and leaves the
  state as it is; the names of the roster are distinct, and so is the roster that
  \<open>startGame\<close> hands to the game screen, which has at least two names.
\<close>

theorem duplicate_names_rejected:
  "(trim (su_playerName (su_run es)) \<in> set (su_players (su_run es)) \<longrightarrow>
      addPlayer (su_run es) =
        (Some (''Duplicate Name'', ''Player already exists!''), su_run es)) \<and>
   distinct (su_players (su_run es)) \<and>
   (startGame (su_run es) = Inr roster \<longrightarrow>
      roster = su_players (su_run es) \<and> distinct roster \<and> 2 \<le> length roster)"
proof -
  have inv: "rosterInv (su_run es)" by (rule su_run_inv)
  have a: "trim (su_playerName (su_run es)) \<in> set (su_players (su_run es)) \<longrightarrow>
      addPlayer (su_run es) =
        (Some (''Duplicate Name'', ''Player already exists!''), su_run es)"
    using inv by (auto simp: addPlayer_def rosterInv_def)
  have b: "distinct (su_players (su_run es))" using inv by (simp add: rosterInv_def)
  have c: "startGame (su_run es) = Inr roster \<longrightarrow>
      roster = su_players (su_run es) \<and> distinct roster \<and> 2 \<le> length roster"
    using b by (auto simp: startGame_def split: if_splits)
  from a b c show ?thesis by blast
qed

theorem duplicate_names_rejected_witness:
  "su_players exampleSetup = [''A'', ''B''] \<and> su_playerName exampleSetup = '' A '' \<and>
   trim (su_playerName exampleSetup) \<in> set (su_players exampleSetup) \<and>
   addPlayer exampleSetup = (Some (''Duplicate Name'', ''Player already exists!''), exampleSetup) \<and>
   startGame exampleSetup = Inr [''A'', ''B''] \<and> distinct [''A'', ''B'']"
proof -
  let ?es = "[ChangeText ''A'', AddPlayer, ChangeText ''B'', AddPlayer, ChangeText '' A '']"
  have f: "su_players exampleSetup = [''A'', ''B'']" "su_playerName exampleSetup = '' A ''"
    "trim '' A '' = ''A''" "startGame exampleSetup = Inr [''A'', ''B'']"
    by code_simp+
  from f have m: "trim (su_playerName exampleSetup) \<in> set (su_players exampleSetup)" by simp
  from duplicate_names_rejected[of ?es "[''A'', ''B'']"] m f(4)
  have "addPlayer exampleSetup =
      (Some (''Duplicate Name'', ''Player already exists!''), exampleSetup) \<and>
    distinct [''A'', ''B'']"
    unfolding exampleSetup_def[symmetric] by blast
  with f m show ?thesis by simp
qed

lemma parsePlayers_valid:
  "text \<noteq> [] \<Longrightarrow> JSON_parse text = Inr v \<Longrightarrow> parsePlayers JSON_parse (Some text) = v"
  by (simp add: parsePlayers_def parsePlayersTry_def)

text \<open>
  C8. When the route parameter is missing, or \<open>JSON.parse\<close> throws on its text, the
  roster of the game screen is the empty array: the \<open>catch\<close> turns everything thrown
  into it, so the expression always has a value.
\<close>

theorem malformed_roster_is_empty:
  "(param = None \<longrightarrow> parsePlayers JSON_parse param = JArray []) \<and>
   (param = Some text \<and> JSON_parse text = Inl e \<longrightarrow>
      parsePlayers JSON_parse param = JArray []) \<and>
   (parsePlayersTry JSON_parse param = Inl e \<longrightarrow> parsePlayers JSON_parse param = JArray [])"
  by (auto simp: parsePlayers_def parsePlayersTry_def split: option.splits sum.splits)

theorem malformed_roster_is_empty_witness:
  "exampleParse ''{oops'' = Inl SyntaxError \<and>
   parsePlayers exampleParse (Some ''{oops'') = JArray [] \<and>
   parsePlayers exampleParse None = JArray []"
proof -
  have f: "exampleParse ''{oops'' = Inl SyntaxError" by (simp add: exampleParse_def)
  from malformed_roster_is_empty[of "Some ''{oops''" exampleParse "''{oops''" SyntaxError] f
  have a: "parsePlayers exampleParse (Some ''{oops'') = JArray []" by simp
  from malformed_roster_is_empty[of None exampleParse]
  have b: "parsePlayers exampleParse None = JArray []" by simp
  from f a b show ?thesis by simp
qed

end
